theory Spec2Isabelle
  imports Main "HOL-Library.Sublist" "HOL-Library.Multiset"
begin

section \<open>The event-history table of lsoph's detail screen\<close>

text \<open>
  This theory embeds \<^verbatim>\<open>DetailScreen.on_mount\<close> and \<^verbatim>\<open>DetailScreen._create_header_text\<close>
  of \<^verbatim>\<open>src/lsoph/ui/detail_screen.py\<close>. The method fills a table widget with one row per
  event of a file's history. Everything the method does beyond computing strings is made
  explicit: the table, the log and the notifications are fields of a state that is passed
  along, and every exception of the Python is a value \<open>Inl e\<close>.

  Conventions of the embedding:
  \<^item> A Python \<^verbatim>\<open>str\<close> is a \<open>string\<close>, read as a sequence of code points below 256; a
    \<^verbatim>\<open>bytes\<close> object is a \<open>char list\<close> too, read as a sequence of bytes. Text with code
    points from 256 on (among them the lone surrogates a \<^verbatim>\<open>surrogateescape\<close> decoding
    would produce, and the real icons of the emoji tables) is outside the embedding.
  \<^item> A Python \<^verbatim>\<open>int\<close> is an \<open>int\<close>. A \<^verbatim>\<open>float\<close> is the exact value of an IEEE double:
    sign, mantissa and binary exponent, or an infinity, or NaN.
  \<^item> What the module imports from files that are not part of the source at hand
    (\<^verbatim>\<open>short_path\<close>, the emoji tables), and what depends on the machine (the local time zone
    behind \<^verbatim>\<open>datetime.fromtimestamp\<close>, the Unicode case mapping of \<^verbatim>\<open>str.upper\<close>, the
    shortest-digits \<^verbatim>\<open>repr\<close> of a float) are fields of a record \<open>env\<close> that every function
    takes as its first argument.
  \<^item> The widgets (\<^verbatim>\<open>query_one\<close>, \<^verbatim>\<open>add_column\<close>, \<^verbatim>\<open>add_row\<close>, \<^verbatim>\<open>clear\<close>, \<^verbatim>\<open>focus\<close>,
    \<^verbatim>\<open>notify\<close>) and the logger are taken to succeed: they are updates of the state.
  \<^item> \<^verbatim>\<open>on_mount\<close> is embedded twice. \<open>on_mount\<close> takes a \<^verbatim>\<open>FileInfo\<close> whose \<^verbatim>\<open>path\<close> is bytes,
    as the source annotates it; \<open>on_mount_any\<close> takes one whose \<^verbatim>\<open>path\<close> is any value, so
    that decoding the path for the log can raise. On a path of bytes the two agree
    (\<open>on_mount_any_bytes\<close>).
\<close>

subsection \<open>Python values and exceptions\<close>

type_synonym bytes = "char list"

datatype pyfloat = Finite bool nat int | Infinite bool | NaN

text \<open>
  \<open>Finite s m e\<close> is the double \<open>(-1)^s * m * 2^e\<close> (so \<open>Finite True 0 0\<close> is \<^verbatim>\<open>-0.0\<close>),
  \<open>Infinite s\<close> is plus or minus infinity (\<open>s\<close> for minus).
\<close>

datatype pyval =
    PNone
  | PBool bool
  | PInt int
  | PFloat pyfloat
  | PStr string
  | PBytes bytes

datatype exn_kind = TypeError | ValueError | OSError | OverflowError | AttributeError

datatype exn = Exn exn_kind string

fun kind_of :: "exn \<Rightarrow> exn_kind" where
  "kind_of (Exn k m) = k"

text \<open>\<^verbatim>\<open>str(e)\<close> of an exception raised with one message.\<close>

fun exn_str :: "exn \<Rightarrow> string" where
  "exn_str (Exn k m) = m"

text \<open>Truthiness, as \<^verbatim>\<open>if x\<close> and \<^verbatim>\<open>not x\<close> decide it.\<close>

fun truthy :: "pyval \<Rightarrow> bool" where
  "truthy PNone = False"
| "truthy (PBool b) = b"
| "truthy (PInt n) = (n \<noteq> 0)"
| "truthy (PFloat (Finite s m e)) = (m \<noteq> 0)"
| "truthy (PFloat (Infinite s)) = True"
| "truthy (PFloat NaN) = True"
| "truthy (PStr s) = (s \<noteq> [])"
| "truthy (PBytes b) = (b \<noteq> [])"

text \<open>\<^verbatim>\<open>isinstance(x, (int, float))\<close>; \<^verbatim>\<open>bool\<close> is a subclass of \<^verbatim>\<open>int\<close>.\<close>

fun is_int_or_float :: "pyval \<Rightarrow> bool" where
  "is_int_or_float (PBool b) = True"
| "is_int_or_float (PInt n) = True"
| "is_int_or_float (PFloat f) = True"
| "is_int_or_float v = False"

text \<open>\<^verbatim>\<open>x > 0\<close> for an int or a float (a comparison with NaN is false).\<close>

fun py_gt0 :: "pyval \<Rightarrow> bool" where
  "py_gt0 (PBool b) = b"
| "py_gt0 (PInt n) = (0 < n)"
| "py_gt0 (PFloat (Finite s m e)) = (\<not> s \<and> 0 < m)"
| "py_gt0 (PFloat (Infinite s)) = (\<not> s)"
| "py_gt0 v = False"

subsection \<open>Decimal digits and padding\<close>

definition digit_char :: "nat \<Rightarrow> char" where
  "digit_char d = char_of (48 + d)"

fun digits10 :: "nat \<Rightarrow> string" where
  "digits10 n = (if n < 10 then [digit_char n] else digits10 (n div 10) @ [digit_char (n mod 10)])"

declare digits10.simps [simp del]

text \<open>C's \<^verbatim>\<open>%0kd\<close>: the decimal digits, filled with zeros on the left up to width \<open>k\<close>.\<close>

definition zero_pad :: "nat \<Rightarrow> nat \<Rightarrow> string" where
  "zero_pad k n = replicate (k - length (digits10 n)) (CHR ''0'') @ digits10 n"

definition hex_char :: "nat \<Rightarrow> char" where
  "hex_char d = (if d < 10 then char_of (48 + d) else char_of (87 + d))"

text \<open>The escape \<^verbatim>\<open>\xNN\<close> of a code point or byte, in lower-case hexadecimal.\<close>

definition hex_escape :: "char \<Rightarrow> string" where
  "hex_escape c = [CHR 0x5C, CHR ''x'', hex_char (of_char c div 16), hex_char (of_char c mod 16)]"

subsection \<open>Formatting a number with \<^verbatim>\<open>:.3f\<close>\<close>

text \<open>\<open>n / d\<close> rounded to the nearest natural number, a tie to the even one.\<close>

definition round_half_even :: "nat \<Rightarrow> nat \<Rightarrow> nat" where
  "round_half_even n d =
     (let q = n div d; r = n mod d
      in if 2 * r < d then q
         else if d < 2 * r then q + 1
         else if even q then q else q + 1)"

text \<open>
  \<^verbatim>\<open>format(x, '.3f')\<close> of a float: the exact value, correctly rounded to three decimals
  (ties to even), with the sign of the float itself, so \<^verbatim>\<open>-0.0001\<close> gives \<^verbatim>\<open>-0.000\<close>.
\<close>

definition thousandths :: "nat \<Rightarrow> int \<Rightarrow> nat" where
  "thousandths m e =
     (if 0 \<le> e then m * 1000 * 2 ^ nat e else round_half_even (m * 1000) (2 ^ nat (- e)))"

fun float_format_3f :: "pyfloat \<Rightarrow> string" where
  "float_format_3f NaN = ''nan''"
| "float_format_3f (Infinite s) = (if s then ''-inf'' else ''inf'')"
| "float_format_3f (Finite s m e) =
     (if s then ''-'' else '''') @ digits10 (thousandths m e div 1000) @ ''.'' @
       zero_pad 3 (thousandths m e mod 1000)"

fun bit_len :: "nat \<Rightarrow> nat" where
  "bit_len n = (if n = 0 then 0 else Suc (bit_len (n div 2)))"

declare bit_len.simps [simp del]

text \<open>
  \<^verbatim>\<open>float(n)\<close> of an int, which \<^verbatim>\<open>format(n, '.3f')\<close> applies first: exact up to 53 bits,
  rounded to 53 bits (ties to even) beyond, \<^verbatim>\<open>OverflowError\<close> from \<open>2^1024\<close> on.
\<close>

definition int_to_float :: "int \<Rightarrow> exn + pyfloat" where
  "int_to_float n =
     (let a = nat \<bar>n\<bar>; k = bit_len a
      in if k \<le> 53 then Inr (Finite (n < 0) a 0)
         else (let sh = k - 53; m = round_half_even a (2 ^ sh)
               in if (2::nat) ^ 1024 \<le> m * 2 ^ sh
                  then Inl (Exn OverflowError ''int too large to convert to float'')
                  else Inr (Finite (n < 0) m (int sh))))"

text \<open>The f-string \<^verbatim>\<open>f"{ts_raw:.3f}"\<close>; only numbers accept the format code \<^verbatim>\<open>f\<close>.\<close>

fun format_3f :: "pyval \<Rightarrow> exn + string" where
  "format_3f PNone =
     Inl (Exn TypeError ''unsupported format string passed to NoneType.__format__'')"
| "format_3f (PBool b) = Inr (float_format_3f (Finite False (if b then 1 else 0) 0))"
| "format_3f (PInt n) =
     (case int_to_float n of Inl e \<Rightarrow> Inl e | Inr f \<Rightarrow> Inr (float_format_3f f))"
| "format_3f (PFloat f) = Inr (float_format_3f f)"
| "format_3f (PStr s) =
     Inl (Exn ValueError (''Unknown format code 'f' for object of type 'str'' @ [CHR 0x27]))"
| "format_3f (PBytes b) =
     Inl (Exn TypeError ''unsupported format string passed to bytes.__format__'')"

subsection \<open>\<^verbatim>\<open>repr\<close> and \<^verbatim>\<open>str\<close>\<close>

text \<open>
  \<^verbatim>\<open>repr\<close> of a \<^verbatim>\<open>str\<close> quotes with an apostrophe, unless the text holds an apostrophe
  and no double quote. It escapes the quote in use and the backslash, writes tab, line feed
  and carriage return as \<^verbatim>\<open>\t\<close>, \<^verbatim>\<open>\n\<close>, \<^verbatim>\<open>\r\<close>, and every other code point that is not
  printable as \<^verbatim>\<open>\xNN\<close>. Below 256 the printable code points are 32 to 126 and 161 to
  255 without 173. \<^verbatim>\<open>repr\<close> of a \<^verbatim>\<open>bytes\<close> object does the same after a leading \<^verbatim>\<open>b\<close>, with
  32 to 126 as the printable bytes.
\<close>

definition repr_quote :: "string \<Rightarrow> char" where
  "repr_quote s = (if CHR 0x27 \<in> set s \<and> CHR 0x22 \<notin> set s then CHR 0x22 else CHR 0x27)"

definition str_printable :: "char \<Rightarrow> bool" where
  "str_printable c =
     (let n = (of_char c :: nat) in (32 \<le> n \<and> n < 127) \<or> (161 \<le> n \<and> n \<noteq> 173))"

definition bytes_printable :: "char \<Rightarrow> bool" where
  "bytes_printable c = (let n = (of_char c :: nat) in 32 \<le> n \<and> n < 127)"

definition repr_char :: "(char \<Rightarrow> bool) \<Rightarrow> char \<Rightarrow> char \<Rightarrow> string" where
  "repr_char printable q c =
     (if c = q \<or> c = CHR 0x5C then [CHR 0x5C, c]
      else if c = CHR 0x09 then [CHR 0x5C, CHR ''t'']
      else if c = CHR 0x0A then [CHR 0x5C, CHR ''n'']
      else if c = CHR 0x0D then [CHR 0x5C, CHR ''r'']
      else if printable c then [c]
      else hex_escape c)"

definition str_repr :: "string \<Rightarrow> string" where
  "str_repr s =
     [repr_quote s] @ concat (map (repr_char str_printable (repr_quote s)) s) @ [repr_quote s]"

definition bytes_repr :: "bytes \<Rightarrow> string" where
  "bytes_repr b =
     ''b'' @ [repr_quote b] @ concat (map (repr_char bytes_printable (repr_quote b)) b) @
     [repr_quote b]"

definition int_repr :: "int \<Rightarrow> string" where
  "int_repr n = (if n < 0 then ''-'' else []) @ digits10 (nat \<bar>n\<bar>)"

text \<open>\<^verbatim>\<open>str.join\<close>.\<close>

fun join :: "string \<Rightarrow> string list \<Rightarrow> string" where
  "join sep [] = []"
| "join sep [x] = x"
| "join sep (x # y # ys) = x @ sep @ join sep (y # ys)"

text \<open>\<^verbatim>\<open>str.encode("utf-8", "surrogateescape")\<close> on code points below 256: nothing to escape.\<close>

definition utf8_char :: "char \<Rightarrow> bytes" where
  "utf8_char c =
     (let n = (of_char c :: nat)
      in if n < 128 then [c] else [char_of (192 + n div 64), char_of (128 + n mod 64)])"

definition utf8_encode :: "string \<Rightarrow> bytes" where
  "utf8_encode s = concat (map utf8_char s)"

subsection \<open>Rich text\<close>

text \<open>
  \<^verbatim>\<open>rich.text.Text(text, style)\<close> keeps the text without the control codes bell, backspace,
  vertical tab, form feed and carriage return; \<^verbatim>\<open>.plain\<close> reads it back. Its first step
  calls \<^verbatim>\<open>text.translate\<close>, so anything but a \<^verbatim>\<open>str\<close> raises.
\<close>

record rich_text =
  plain :: string
  style :: string

definition strip_control_codes :: "string \<Rightarrow> string" where
  "strip_control_codes s = filter (\<lambda>c. (of_char c :: nat) \<notin> {7, 8, 11, 12, 13}) s"

definition Text :: "string \<Rightarrow> string \<Rightarrow> rich_text" where
  "Text s sty = \<lparr>plain = strip_control_codes s, style = sty\<rparr>"

definition no_translate :: "string \<Rightarrow> exn" where
  "no_translate tyname =
     Exn AttributeError
       ([CHR 0x27] @ tyname @ ''' object has no attribute 'translate'' @ [CHR 0x27])"

fun Text_of :: "pyval \<Rightarrow> string \<Rightarrow> exn + rich_text" where
  "Text_of (PStr s) sty = Inr (Text s sty)"
| "Text_of PNone sty = Inl (no_translate ''NoneType'')"
| "Text_of (PBool b) sty = Inl (no_translate ''bool'')"
| "Text_of (PInt n) sty = Inl (no_translate ''int'')"
| "Text_of (PFloat f) sty = Inl (no_translate ''float'')"
| "Text_of (PBytes b) sty =
     Inl (Exn TypeError (''a bytes-like object is required, not 'dict'' @ [CHR 0x27]))"

subsection \<open>Dictionaries\<close>

text \<open>
  A \<^verbatim>\<open>dict\<close> keeps its keys in insertion order: an association list with distinct keys.
  \<^verbatim>\<open>d[k] = v\<close> replaces the value of a key that is there and appends a new key.
\<close>

type_synonym 'v dict = "(string \<times> 'v) list"

definition dict_set :: "'v dict \<Rightarrow> string \<Rightarrow> 'v \<Rightarrow> 'v dict" where
  "dict_set d k v =
     (if k \<in> fst ` set d then map (\<lambda>(k', v'). if k' = k then (k', v) else (k', v')) d
      else d @ [(k, v)])"

text \<open>The dictionary without a key.\<close>

definition dict_del :: "'v dict \<Rightarrow> string \<Rightarrow> 'v dict" where
  "dict_del d k = filter (\<lambda>p. fst p \<noteq> k) d"

subsection \<open>Times of day\<close>

text \<open>
  The fields of a \<^verbatim>\<open>datetime\<close> that \<^verbatim>\<open>strftime("%H:%M:%S.%f")\<close> reads. Python keeps
  \<open>hour < 24\<close>, \<open>minute < 60\<close>, \<open>second < 60\<close> and \<open>microsecond < 1000000\<close>.
\<close>

record datetime =
  hour :: nat
  minute :: nat
  second :: nat
  microsecond :: nat

definition valid_datetime :: "datetime \<Rightarrow> bool" where
  "valid_datetime d =
     (hour d < 24 \<and> minute d < 60 \<and> second d < 60 \<and> microsecond d < 1000000)"

definition strftime_HMSf :: "datetime \<Rightarrow> string" where
  "strftime_HMSf d =
     zero_pad 2 (hour d) @ '':'' @ zero_pad 2 (minute d) @ '':'' @ zero_pad 2 (second d) @
     ''.'' @ zero_pad 6 (microsecond d)"

text \<open>The slice \<^verbatim>\<open>s[:-3]\<close>.\<close>

definition drop_last3 :: "string \<Rightarrow> string" where
  "drop_last3 s = take (length s - 3) s"

subsection \<open>The two shapes of a timestamp text\<close>

definition is_digit :: "char \<Rightarrow> bool" where
  "is_digit c = (48 \<le> (of_char c :: nat) \<and> (of_char c :: nat) \<le> 57)"

text \<open>\<^verbatim>\<open>HH:MM:SS.mmm\<close>: twelve characters, digits around two colons and a point.\<close>

definition clock_text :: "string \<Rightarrow> bool" where
  "clock_text s =
     (length s = 12
      \<and> list_all is_digit (take 2 s) \<and> s ! 2 = CHR '':''
      \<and> list_all is_digit (take 2 (drop 3 s)) \<and> s ! 5 = CHR '':''
      \<and> list_all is_digit (take 2 (drop 6 s)) \<and> s ! 8 = CHR ''.''
      \<and> list_all is_digit (drop 9 s))"

text \<open>A number with three decimal places: a minus sign or none, digits, a point, three digits.\<close>

definition three_decimals :: "string \<Rightarrow> bool" where
  "three_decimals s =
     (let u = (if take 1 s = ''-'' then drop 1 s else s)
      in 5 \<le> length u
         \<and> list_all is_digit (take (length u - 4) u)
         \<and> u ! (length u - 4) = CHR ''.''
         \<and> list_all is_digit (drop (length u - 3) u))"

text \<open>The numbers with a finite value: every \<^verbatim>\<open>bool\<close> and \<^verbatim>\<open>int\<close>, every float but the infinities and NaN.\<close>

fun finite_number :: "pyval \<Rightarrow> bool" where
  "finite_number (PBool b) = True"
| "finite_number (PInt n) = True"
| "finite_number (PFloat (Finite s m e)) = True"
| "finite_number v = False"

text \<open>
  The clock text in the spec's words: hours, minutes and seconds in two digits each, and the
  milliseconds in three, the microseconds divided by 1000 and rounded down.
\<close>

definition hms_millis :: "datetime \<Rightarrow> string" where
  "hms_millis d =
     zero_pad 2 (hour d) @ '':'' @ zero_pad 2 (minute d) @ '':'' @ zero_pad 2 (second d) @
     ''.'' @ zero_pad 3 (microsecond d div 1000)"

subsection \<open>What the module imports\<close>

text \<open>
  Modelled from the spec: \<^verbatim>\<open>lsoph.util.short_path.short_path\<close> and the tables of
  \<^verbatim>\<open>lsoph.ui.emoji\<close> are not among the source files. The spec (4.1, 4.2) describes
  \<^verbatim>\<open>short_path\<close> as a pure function that never raises, from a byte sequence and a width to
  display text; that is all the embedding takes from it: the field \<open>short_path\<close> is any
  total function. What \<^verbatim>\<open>short_path\<close> does with an argument that is not a byte sequence,
  the spec does not say: the field \<open>short_path_other\<close> is any function, and it may raise.
  \<open>EVENT_EMOJI_MAP\<close> is any finite table from upper-case type names to icons and
  \<open>DEFAULT_EMOJI\<close> any icon.

  \<open>fromtimestamp\<close> stands for \<^verbatim>\<open>datetime.datetime.fromtimestamp\<close>, which depends on the
  local time zone and raises \<^verbatim>\<open>OverflowError\<close>, \<^verbatim>\<open>ValueError\<close> or \<^verbatim>\<open>OSError\<close> out of range;
  \<open>str_upper\<close> for \<^verbatim>\<open>str.upper\<close>; \<open>float_repr\<close> for \<^verbatim>\<open>repr\<close> of a float.
\<close>

record env =
  short_path :: "bytes \<Rightarrow> nat \<Rightarrow> string"
  short_path_other :: "pyval \<Rightarrow> nat \<Rightarrow> exn + string"
  EVENT_EMOJI_MAP :: "string \<rightharpoonup> string"
  DEFAULT_EMOJI :: string
  fromtimestamp :: "pyval \<Rightarrow> exn + datetime"
  str_upper :: "string \<Rightarrow> string"
  float_repr :: "pyfloat \<Rightarrow> string"

fun py_repr :: "env \<Rightarrow> pyval \<Rightarrow> string" where
  "py_repr env PNone = ''None''"
| "py_repr env (PBool b) = (if b then ''True'' else ''False'')"
| "py_repr env (PInt n) = int_repr n"
| "py_repr env (PFloat f) = float_repr env f"
| "py_repr env (PStr s) = str_repr s"
| "py_repr env (PBytes b) = bytes_repr b"

fun py_str :: "env \<Rightarrow> pyval \<Rightarrow> string" where
  "py_str env (PStr s) = s"
| "py_str env v = py_repr env v"

text \<open>\<^verbatim>\<open>EVENT_EMOJI_MAP.get(key, DEFAULT_EMOJI)\<close>.\<close>

definition emoji_get :: "env \<Rightarrow> string \<Rightarrow> string" where
  "emoji_get env k = (case EVENT_EMOJI_MAP env k of None \<Rightarrow> DEFAULT_EMOJI env | Some e \<Rightarrow> e)"

subsection \<open>Events, the watched file, the screen\<close>

text \<open>
  An event is a \<^verbatim>\<open>dict\<close> that \<^verbatim>\<open>on_mount\<close> reads through \<^verbatim>\<open>event.get\<close> at four keys; a key
  that is absent is \<open>None\<close> here. \<^verbatim>\<open>details\<close> is typed \<^verbatim>\<open>dict[str, Any]\<close>.
\<close>

record event =
  ev_ts :: "pyval option"
  ev_type :: "pyval option"
  ev_success :: "pyval option"
  ev_details :: "pyval dict option"

text \<open>
  \<^verbatim>\<open>event.get("ts", 0)\<close>, \<^verbatim>\<open>event.get("type", "?")\<close>, \<^verbatim>\<open>event.get("success", True)\<close> and
  \<^verbatim>\<open>event.get("details", {})\<close>.
\<close>

definition get_ts :: "event \<Rightarrow> pyval" where
  "get_ts ev = (case ev_ts ev of None \<Rightarrow> PInt 0 | Some v \<Rightarrow> v)"

definition get_type :: "event \<Rightarrow> pyval" where
  "get_type ev = (case ev_type ev of None \<Rightarrow> PStr ''?'' | Some v \<Rightarrow> v)"

definition get_success :: "event \<Rightarrow> pyval" where
  "get_success ev = (case ev_success ev of None \<Rightarrow> PBool True | Some v \<Rightarrow> v)"

definition get_details :: "event \<Rightarrow> pyval dict" where
  "get_details ev = (case ev_details ev of None \<Rightarrow> [] | Some d \<Rightarrow> d)"

text \<open>
  \<^verbatim>\<open>FileInfo\<close>. The source annotates its \<^verbatim>\<open>path\<close> as \<^verbatim>\<open>bytes\<close> ("FileInfo.path is bytes"), and
  Python does not enforce the annotation. The record is kept for a path of any type:
  \<open>file_info\<close> is a \<^verbatim>\<open>FileInfo\<close> as annotated, \<open>file_object\<close> one whose \<^verbatim>\<open>path\<close> is any value.
\<close>

record 'p file_info_of =
  path :: 'p
  status :: string
  is_open :: bool
  event_history :: "event list"

type_synonym file_info = "bytes file_info_of"

type_synonym file_object = "pyval file_info_of"

datatype log_level = DEBUG | WARNING | ERROR

text \<open>The three messages the method logs, by their place in the source and their arguments.\<close>

datatype log_entry =
    Populating nat bytes
  | Bad_timestamp pyval exn
  | Populating_failed bytes exn

fun level :: "log_entry \<Rightarrow> log_level" where
  "level (Populating n p) = DEBUG"
| "level (Bad_timestamp v e) = WARNING"
| "level (Populating_failed p e) = ERROR"

type_synonym table_row = "rich_text list"

record data_table =
  columns :: "(string \<times> string \<times> nat option) list"
  rows :: "table_row list"
  focused :: bool

record screen =
  header :: "(string \<times> string) list"
  table :: data_table
  logged :: "log_entry list"
  notifications :: "(string \<times> string) list"

definition add_column :: "string \<Rightarrow> string \<Rightarrow> nat option \<Rightarrow> screen \<Rightarrow> screen" where
  "add_column label k w st =
     st\<lparr>table := (table st)\<lparr>columns := columns (table st) @ [(label, k, w)]\<rparr>\<rparr>"

definition add_row :: "table_row \<Rightarrow> screen \<Rightarrow> screen" where
  "add_row r st = st\<lparr>table := (table st)\<lparr>rows := rows (table st) @ [r]\<rparr>\<rparr>"

text \<open>\<^verbatim>\<open>DataTable.clear()\<close> removes the rows and keeps the columns.\<close>

definition clear_rows :: "screen \<Rightarrow> screen" where
  "clear_rows st = st\<lparr>table := (table st)\<lparr>rows := []\<rparr>\<rparr>"

definition focus :: "screen \<Rightarrow> screen" where
  "focus st = st\<lparr>table := (table st)\<lparr>focused := True\<rparr>\<rparr>"

definition log_add :: "log_entry list \<Rightarrow> screen \<Rightarrow> screen" where
  "log_add es st = st\<lparr>logged := logged st @ es\<rparr>"

definition notify :: "string \<Rightarrow> string \<Rightarrow> screen \<Rightarrow> screen" where
  "notify m severity st = st\<lparr>notifications := notifications st @ [(m, severity)]\<rparr>"

subsection \<open>\<^verbatim>\<open>_create_header_text\<close>\<close>

text \<open>The header as \<^verbatim>\<open>Text.assemble\<close> builds it: pieces of text, each with its style.\<close>

definition create_header_text :: "env \<Rightarrow> file_info \<Rightarrow> (string \<times> string) list" where
  "create_header_text env fi =
     (let path_display_str = short_path env (path fi) 100;
          status_upper = str_upper env (status fi);
          sty = (if status fi = ''error'' then ''bold red''
                 else if is_open fi then ''bold green''
                 else if status fi = ''deleted'' then ''strike''
                 else [])
      in [(strip_control_codes ''Details for: '', []),
          (strip_control_codes path_display_str, ''bold''),
          (strip_control_codes '' | Status: '', []),
          (strip_control_codes status_upper, sty)])"

subsection \<open>One event: the timestamp\<close>

text \<open>
  Lines 95 to 104. The fallback text \<^verbatim>\<open>f"{ts_raw:.3f}"\<close> is computed first, outside the
  \<^verbatim>\<open>try\<close>. Inside it, a positive int or float is converted to local time and printed as
  \<^verbatim>\<open>%H:%M:%S.%f\<close> without its last three characters. The handler catches \<^verbatim>\<open>TypeError\<close>,
  \<^verbatim>\<open>ValueError\<close> and \<^verbatim>\<open>OSError\<close> and logs a warning. The result is the exception that
  leaves the block, or the text; with it the warnings logged on the way.
\<close>

definition caught_by_ts_handler :: "exn \<Rightarrow> bool" where
  "caught_by_ts_handler e =
     (kind_of e = TypeError \<or> kind_of e = ValueError \<or> kind_of e = OSError)"

definition format_ts :: "env \<Rightarrow> pyval \<Rightarrow> (exn + string) \<times> log_entry list" where
  "format_ts env ts_raw =
     (case format_3f ts_raw of
        Inl e \<Rightarrow> (Inl e, [])
      | Inr ts_str \<Rightarrow>
          if is_int_or_float ts_raw \<and> py_gt0 ts_raw then
            (case fromtimestamp env ts_raw of
               Inr d \<Rightarrow> (Inr (drop_last3 (strftime_HMSf d)), [])
             | Inl ts_err \<Rightarrow>
                 if caught_by_ts_handler ts_err
                 then (Inr ts_str, [Bad_timestamp ts_raw ts_err])
                 else (Inl ts_err, []))
          else (Inr ts_str, []))"

subsection \<open>One event: the details\<close>

definition excluded_keys :: "string list" where
  "excluded_keys =
     [''syscall'', ''type'', ''success'', ''ts'', ''error_msg'',
      ''target_path'', ''source_path'', ''renamed_to'', ''renamed_from'']"

definition path_keys :: "string list" where
  "path_keys = [''target_path'', ''source_path'', ''renamed_to'', ''renamed_from'']"

text \<open>
  The call \<^verbatim>\<open>os.fsdecode(v, "surrogateescape")\<close> of lines 144 and 159. \<^verbatim>\<open>os.fsdecode\<close> takes
  one argument (it always decodes with the file system's error handler), so the call with
  two raises \<^verbatim>\<open>TypeError\<close> before anything is decoded. The message is CPython 3.11's.
\<close>

definition fsdecode_arity_error :: exn where
  "fsdecode_arity_error =
     Exn TypeError ''_fscodec.<locals>.fsdecode() takes 1 positional argument but 2 were given''"

definition fsdecode_surrogateescape :: "bytes \<Rightarrow> exn + string" where
  "fsdecode_surrogateescape v = Inl fsdecode_arity_error"

text \<open>A value of \<^verbatim>\<open>filtered_details\<close>: a value of the event, or the \<^verbatim>\<open>Text\<close> of the error name.\<close>

datatype fval = Plain pyval | Rich rich_text

text \<open>Lines 129 to 146: the loop over \<^verbatim>\<open>details_dict.items()\<close>.\<close>

fun filter_details :: "pyval dict \<Rightarrow> fval dict \<Rightarrow> exn + fval dict" where
  "filter_details [] acc = Inr acc"
| "filter_details ((k, v) # rest) acc =
     (if k \<notin> set excluded_keys then
        (case v of
           PBytes b \<Rightarrow>
             (case fsdecode_surrogateescape b of
                Inl e \<Rightarrow> Inl e
              | Inr s \<Rightarrow> filter_details rest (dict_set acc k (Plain (PStr s))))
         | _ \<Rightarrow> filter_details rest (dict_set acc k (Plain v)))
      else filter_details rest acc)"

text \<open>Lines 149 to 161: the loop over the four path keys.\<close>

fun decode_path_details :: "pyval dict \<Rightarrow> string list \<Rightarrow> fval dict \<Rightarrow> exn + fval dict" where
  "decode_path_details d [] acc = Inr acc"
| "decode_path_details d (path_key # ks) acc =
     (case map_of d path_key of
        Some (PBytes b) \<Rightarrow>
          (case fsdecode_surrogateescape b of
             Inl e \<Rightarrow> Inl e
           | Inr s \<Rightarrow> decode_path_details d ks (dict_set acc path_key (Plain (PStr s))))
      | _ \<Rightarrow> decode_path_details d ks acc)"

text \<open>Lines 163 to 165; \<^verbatim>\<open>details_dict.get("error_name")\<close> is \<open>None\<close> for an absent key.\<close>

definition get_error_name :: "pyval dict \<Rightarrow> pyval" where
  "get_error_name d = (case map_of d ''error_name'' of None \<Rightarrow> PNone | Some v \<Rightarrow> v)"

definition add_error_entry :: "pyval dict \<Rightarrow> pyval \<Rightarrow> fval dict \<Rightarrow> exn + fval dict" where
  "add_error_entry d success acc =
     (let error_name = get_error_name d
      in if truthy error_name \<and> \<not> truthy success then
           (case Text_of error_name ''red'' of
              Inl e \<Rightarrow> Inl e
            | Inr t \<Rightarrow> Inr (dict_set acc ''ERROR'' (Rich t)))
         else Inr acc)"

definition filtered_details :: "pyval dict \<Rightarrow> pyval \<Rightarrow> exn + fval dict" where
  "filtered_details d success =
     (case filter_details d [] of
        Inl e \<Rightarrow> Inl e
      | Inr acc1 \<Rightarrow>
          (case decode_path_details d path_keys acc1 of
             Inl e \<Rightarrow> Inl e
           | Inr acc2 \<Rightarrow> add_error_entry d success acc2))"

text \<open>Lines 167 to 175: one \<^verbatim>\<open>key=repr\<close> part for each entry, joined with a comma and a space.\<close>

fun details_part :: "env \<Rightarrow> string \<times> fval \<Rightarrow> string" where
  "details_part env (k, Rich t) = k @ ''='' @ str_repr (plain t)"
| "details_part env (k, Plain v) = k @ ''='' @ py_repr env v"

definition details_str :: "env \<Rightarrow> fval dict \<Rightarrow> string" where
  "details_str env fd = join '', '' (map (details_part env) fd)"

text \<open>Lines 126 to 175 together: the value of the variable \<^verbatim>\<open>details_str\<close>.\<close>

definition format_details :: "env \<Rightarrow> pyval dict \<Rightarrow> pyval \<Rightarrow> exn + string" where
  "format_details env d success =
     (case filtered_details d success of
        Inl e \<Rightarrow> Inl e
      | Inr fd \<Rightarrow> Inr (details_str env fd))"

subsection \<open>One event: the row\<close>

text \<open>
  The body of the loop, lines 94 to 183, up to the row handed to \<^verbatim>\<open>table.add_row\<close>: the
  four cells, or the exception that leaves the body; with it the warnings logged.
\<close>

definition format_event :: "env \<Rightarrow> event \<Rightarrow> (exn + table_row) \<times> log_entry list" where
  "format_event env ev =
     (let ts_raw = get_ts ev
      in case format_ts env ts_raw of
           (Inl e, lg) \<Rightarrow> (Inl e, lg)
         | (Inr ts_str, lg) \<Rightarrow>
             (let ts_text = Text ts_str [];
                  event_type_str = str_upper env (py_str env (get_type ev));
                  success = get_success ev;
                  emoji = (if \<not> truthy success then emoji_get env ''ERROR''
                           else emoji_get env event_type_str);
                  etype_text = Text (emoji @ '' '' @ event_type_str) [];
                  result_text = (if truthy success then Text ''OK'' ''green''
                                 else Text ''FAIL'' ''red'');
                  details_dict = get_details ev
              in case format_details env details_dict success of
                   Inl e \<Rightarrow> (Inl e, lg)
                 | Inr ds \<Rightarrow>
                     (let details_display = short_path env (utf8_encode ds) 100;
                          details_text = Text details_display []
                      in (Inr [ts_text, etype_text, result_text, details_text], lg))))"

subsection \<open>\<^verbatim>\<open>on_mount\<close> for a path of bytes\<close>

text \<open>
  This section takes the \<^verbatim>\<open>FileInfo\<close> as annotated. Its \<^verbatim>\<open>path\<close> is a byte sequence, for
  which \<^verbatim>\<open>os.fsdecode(self.file_info.path)\<close> in the log lines 83 and 190 returns; the entry
  of the log keeps the path.

  The loop of line 93. There is no \<^verbatim>\<open>try\<close> around its body: an exception of one event
  leaves the loop, and the rows added before it stay in the table for the moment.
\<close>

fun add_event_rows :: "env \<Rightarrow> event list \<Rightarrow> screen \<Rightarrow> exn option \<times> screen" where
  "add_event_rows env [] st = (None, st)"
| "add_event_rows env (ev # evs) st =
     (case format_event env ev of
        (Inl e, lg) \<Rightarrow> (Some e, log_add lg st)
      | (Inr r, lg) \<Rightarrow> add_event_rows env evs (add_row r (log_add lg st)))"

definition no_history_text :: string where
  "no_history_text = ''No event history recorded for this file.''"

text \<open>The body of the outer \<^verbatim>\<open>try\<close>, lines 68 to 186.\<close>

definition on_mount_body :: "env \<Rightarrow> file_info \<Rightarrow> screen \<Rightarrow> exn option \<times> screen" where
  "on_mount_body env fi st =
     (let st1 = st\<lparr>header := create_header_text env fi\<rparr>;
          st2 = add_column ''Details'' ''details'' None
                  (add_column ''Result'' ''result'' (Some 6)
                    (add_column ''Event'' ''event'' (Some 12)
                      (add_column ''Timestamp'' ''ts'' (Some 12) st1)));
          history = event_history fi;
          st3 = log_add [Populating (length history) (path fi)] st2
      in if history = [] then (None, add_row [Text no_history_text ''dim''] st3)
         else (case add_event_rows env history st3 of
                 (Some e, st4) \<Rightarrow> (Some e, st4)
               | (None, st4) \<Rightarrow> (None, focus st4)))"

text \<open>
  The handler of the outer \<^verbatim>\<open>try\<close>, lines 188 to 198. The inner \<^verbatim>\<open>try\<close> guards calls of
  the table that are taken to succeed.
\<close>

definition error_row :: "exn \<Rightarrow> table_row" where
  "error_row e = [Text (''Error loading details: '' @ exn_str e) ''bold red'']"

definition on_mount_handler :: "file_info \<Rightarrow> exn \<Rightarrow> screen \<Rightarrow> screen" where
  "on_mount_handler fi e st =
     notify ''Error loading details.'' ''error''
       (add_row (error_row e) (clear_rows (log_add [Populating_failed (path fi) e] st)))"

text \<open>
  The whole method: the exception that leaves it, if any, and the screen it leaves. The
  handler is \<^verbatim>\<open>except Exception\<close>, which catches every exception of the body.
\<close>

definition on_mount :: "env \<Rightarrow> file_info \<Rightarrow> screen \<Rightarrow> exn option \<times> screen" where
  "on_mount env fi st =
     (case on_mount_body env fi st of
        (None, st') \<Rightarrow> (None, st')
      | (Some e, st') \<Rightarrow> (None, on_mount_handler fi e st'))"

definition mounted :: "env \<Rightarrow> file_info \<Rightarrow> screen \<Rightarrow> screen" where
  "mounted env fi st = snd (on_mount env fi st)"

text \<open>The screen as \<^verbatim>\<open>compose\<close> leaves it: the header, and a table with no column and no row.\<close>

definition compose :: "env \<Rightarrow> file_info \<Rightarrow> screen" where
  "compose env fi =
     \<lparr>header = create_header_text env fi,
      table = \<lparr>columns = [], rows = [], focused = False\<rparr>,
      logged = [],
      notifications = []\<rparr>"

subsection \<open>\<^verbatim>\<open>on_mount\<close> for a path of any type\<close>

text \<open>
  \<^verbatim>\<open>os.fsdecode(filename)\<close>. Bytes are decoded with the encoding of the file system and the
  handler \<^verbatim>\<open>surrogateescape\<close>, which decodes every byte sequence; a \<^verbatim>\<open>str\<close> is returned as
  it is; any other value here raises \<^verbatim>\<open>TypeError\<close> (the message is CPython 3.11's). The
  decoded text can hold code points that a \<open>string\<close> here cannot, so the result is kept as
  the bytes that \<^verbatim>\<open>os.fsencode\<close> gives back from it: the bytes themselves, or the UTF-8
  encoding of the \<^verbatim>\<open>str\<close>.
\<close>

definition fspath_error :: "string \<Rightarrow> exn" where
  "fspath_error tyname =
     Exn TypeError (''expected str, bytes or os.PathLike object, not '' @ tyname)"

fun os_fsdecode :: "pyval \<Rightarrow> exn + bytes" where
  "os_fsdecode (PBytes b) = Inr b"
| "os_fsdecode (PStr s) = Inr (utf8_encode s)"
| "os_fsdecode PNone = Inl (fspath_error ''NoneType'')"
| "os_fsdecode (PBool b) = Inl (fspath_error ''bool'')"
| "os_fsdecode (PInt n) = Inl (fspath_error ''int'')"
| "os_fsdecode (PFloat f) = Inl (fspath_error ''float'')"

text \<open>\<^verbatim>\<open>short_path(self.file_info.path, 100)\<close> of line 49.\<close>

definition short_path_any :: "env \<Rightarrow> pyval \<Rightarrow> nat \<Rightarrow> exn + string" where
  "short_path_any env p w =
     (case p of PBytes b \<Rightarrow> Inr (short_path env b w) | _ \<Rightarrow> short_path_other env p w)"

definition create_header_text_any :: "env \<Rightarrow> file_object \<Rightarrow> exn + (string \<times> string) list" where
  "create_header_text_any env fo =
     (case short_path_any env (path fo) 100 of
        Inl e \<Rightarrow> Inl e
      | Inr path_display_str \<Rightarrow>
          (let status_upper = str_upper env (status fo);
               sty = (if status fo = ''error'' then ''bold red''
                      else if is_open fo then ''bold green''
                      else if status fo = ''deleted'' then ''strike''
                      else [])
           in Inr [(strip_control_codes ''Details for: '', []),
                   (strip_control_codes path_display_str, ''bold''),
                   (strip_control_codes '' | Status: '', []),
                   (strip_control_codes status_upper, sty)]))"

text \<open>
  The body of the outer \<^verbatim>\<open>try\<close>, lines 68 to 186. The header of line 70 can raise, and so
  can the f-string of line 83, which decodes the path for the debug line after the columns
  are added.
\<close>

definition on_mount_body_any :: "env \<Rightarrow> file_object \<Rightarrow> screen \<Rightarrow> exn option \<times> screen" where
  "on_mount_body_any env fo st =
     (case create_header_text_any env fo of
        Inl e \<Rightarrow> (Some e, st)
      | Inr h \<Rightarrow>
          (let st1 = st\<lparr>header := h\<rparr>;
               st2 = add_column ''Details'' ''details'' None
                       (add_column ''Result'' ''result'' (Some 6)
                         (add_column ''Event'' ''event'' (Some 12)
                           (add_column ''Timestamp'' ''ts'' (Some 12) st1)));
               history = event_history fo
           in case os_fsdecode (path fo) of
                Inl e \<Rightarrow> (Some e, st2)
              | Inr p \<Rightarrow>
                  (let st3 = log_add [Populating (length history) p] st2
                   in if history = [] then (None, add_row [Text no_history_text ''dim''] st3)
                      else (case add_event_rows env history st3 of
                              (Some e, st4) \<Rightarrow> (Some e, st4)
                            | (None, st4) \<Rightarrow> (None, focus st4)))))"

text \<open>
  The handler of the outer \<^verbatim>\<open>try\<close>, lines 188 to 198. Its first statement is the call of
  \<^verbatim>\<open>log.exception\<close>, whose argument is an f-string that decodes the path again (line 190).
  If that raises, the new exception leaves the handler at once: lines 192 to 198, with the
  inner \<^verbatim>\<open>try\<close> and the notification, are not reached.
\<close>

definition on_mount_handler_any :: "file_object \<Rightarrow> exn \<Rightarrow> screen \<Rightarrow> exn option \<times> screen" where
  "on_mount_handler_any fo e st =
     (case os_fsdecode (path fo) of
        Inl e' \<Rightarrow> (Some e', st)
      | Inr p \<Rightarrow>
          (None, notify ''Error loading details.'' ''error''
                   (add_row (error_row e) (clear_rows (log_add [Populating_failed p e] st)))))"

text \<open>The whole method: the exception that leaves it, if any, and the screen it leaves.\<close>

definition on_mount_any :: "env \<Rightarrow> file_object \<Rightarrow> screen \<Rightarrow> exn option \<times> screen" where
  "on_mount_any env fo st =
     (case on_mount_body_any env fo st of
        (None, st') \<Rightarrow> (None, st')
      | (Some e, st') \<Rightarrow> on_mount_handler_any fo e st')"

definition mounted_any :: "env \<Rightarrow> file_object \<Rightarrow> screen \<Rightarrow> screen" where
  "mounted_any env fo st = snd (on_mount_any env fo st)"

text \<open>A \<^verbatim>\<open>FileInfo\<close> as annotated, read as an object.\<close>

definition as_object :: "file_info \<Rightarrow> file_object" where
  "as_object fi =
     \<lparr>path = PBytes (path fi), status = status fi, is_open = is_open fi,
      event_history = event_history fi\<rparr>"

subsection \<open>Details that format\<close>

fun is_bytes :: "pyval \<Rightarrow> bool" where
  "is_bytes (PBytes b) = True"
| "is_bytes v = False"

fun is_str :: "pyval \<Rightarrow> bool" where
  "is_str (PStr s) = True"
| "is_str v = False"

text \<open>
  The details for which lines 126 to 175 raise nothing: no byte sequence under a key that
  is not excluded, none under a path key, and, where the \<^verbatim>\<open>ERROR\<close> entry is due, an error
  name that is text.
\<close>

definition details_ok :: "pyval dict \<Rightarrow> pyval \<Rightarrow> bool" where
  "details_ok d success =
     (list_all (\<lambda>p. fst p \<in> set excluded_keys \<or> \<not> is_bytes (snd p)) d
      \<and> list_all (\<lambda>k. case map_of d k of None \<Rightarrow> True | Some v \<Rightarrow> \<not> is_bytes v) path_keys
      \<and> (truthy (get_error_name d) \<and> \<not> truthy success \<longrightarrow> is_str (get_error_name d)))"

subsection \<open>A sample environment\<close>

text \<open>
  The theorems below hold for every environment. Their closed instances are evaluated in
  this one: a machine whose local time is UTC and whose calendar ends with the year 9999,
  the case mapping of ASCII, a shortener in the shape the spec gives for \<^verbatim>\<open>short_path\<close>
  (text within the width is unchanged, longer text keeps two fifths of the remaining width
  at the front and the rest at the back, around one marker) that reads an argument other
  than bytes through \<^verbatim>\<open>os.fsdecode\<close>, and small stand-ins for the icons and for the digits of
  a float.
\<close>

definition ascii_upper :: "string \<Rightarrow> string" where
  "ascii_upper s =
     map (\<lambda>c. if 97 \<le> (of_char c :: nat) \<and> (of_char c :: nat) \<le> 122
              then char_of ((of_char c :: nat) - 32) else c) s"

text \<open>A positive timestamp in microseconds, a float rounded half to even as Python does.\<close>

fun utc_micros :: "pyval \<Rightarrow> exn + nat" where
  "utc_micros (PBool b) = Inr (if b then 1000000 else 0)"
| "utc_micros (PInt n) = Inr (nat n * 1000000)"
| "utc_micros (PFloat (Finite s m e)) =
     Inr (if 0 \<le> e then m * 1000000 * 2 ^ nat e
          else round_half_even (m * 1000000) (2 ^ nat (- e)))"
| "utc_micros (PFloat (Infinite s)) =
     Inl (Exn OverflowError ''timestamp out of range for platform time_t'')"
| "utc_micros (PFloat NaN) = Inl (Exn ValueError ''Invalid value NaN (not a number)'')"
| "utc_micros v = Inl (Exn TypeError ''an integer is required'')"

definition utc_fromtimestamp :: "pyval \<Rightarrow> exn + datetime" where
  "utc_fromtimestamp v =
     (case utc_micros v of
        Inl e \<Rightarrow> Inl e
      | Inr us \<Rightarrow>
          (let secs = us div 1000000
           in if (2::nat) ^ 63 \<le> secs
              then Inl (Exn OverflowError ''timestamp out of range for platform time_t'')
              else if 253402300800 \<le> secs
              then Inl (Exn ValueError ''year is out of range'')
              else Inr \<lparr>hour = secs div 3600 mod 24, minute = secs div 60 mod 60,
                        second = secs mod 60, microsecond = us mod 1000000\<rparr>))"

definition sample_short_path :: "bytes \<Rightarrow> nat \<Rightarrow> string" where
  "sample_short_path b w =
     (if length b \<le> w then b
      else if w < 2 then take w ''~''
      else take (2 * (w - 1) div 5) b @ ''~'' @
           drop (length b - (w - 1 - 2 * (w - 1) div 5)) b)"

definition sample_env :: env where
  "sample_env =
     \<lparr>short_path = sample_short_path,
      short_path_other =
        (\<lambda>p w. case os_fsdecode p of Inl e \<Rightarrow> Inl e | Inr b \<Rightarrow> Inr (sample_short_path b w)),
      EVENT_EMOJI_MAP = map_of [(''ERROR'', ''!''), (''OPEN'', ''o''), (''READ'', ''r'')],
      DEFAULT_EMOJI = ''*'',
      fromtimestamp = utc_fromtimestamp,
      str_upper = ascii_upper,
      float_repr = float_format_3f\<rparr>"

text \<open>
  Sample events: the read of the spec's example (\<open>1700000000.123\<close> as a double), a failed
  open with an error name and a path given as text, an event whose path is a byte sequence
  that is not valid UTF-8, an event whose timestamp is text, one whose timestamp is the
  float infinity, and one whose timestamp lies in the year 10000.
\<close>

definition read_event :: event where
  "read_event =
     \<lparr>ev_ts = Some (PFloat (Finite False 7130316800515899 (- 22))),
      ev_type = Some (PStr ''read''),
      ev_success = Some (PBool True),
      ev_details = Some [(''fd'', PInt 3)]\<rparr>"

definition enoent_event :: event where
  "enoent_event =
     \<lparr>ev_ts = None,
      ev_type = Some (PStr ''open''),
      ev_success = Some (PBool False),
      ev_details = Some [(''error_name'', PStr ''ENOENT''), (''target_path'', PStr ''/x'')]\<rparr>"

definition bytes_path_event :: event where
  "bytes_path_event =
     \<lparr>ev_ts = Some (PInt 5),
      ev_type = Some (PStr ''open''),
      ev_success = Some (PBool True),
      ev_details = Some [(''target_path'', PBytes [CHR ''/'', CHR 0xFF])]\<rparr>"

definition text_ts_event :: event where
  "text_ts_event =
     \<lparr>ev_ts = Some (PStr ''abc''),
      ev_type = Some (PStr ''read''),
      ev_success = Some (PBool True),
      ev_details = Some []\<rparr>"

definition inf_ts_event :: event where
  "inf_ts_event =
     \<lparr>ev_ts = Some (PFloat (Infinite False)),
      ev_type = Some (PStr ''read''),
      ev_success = Some (PBool True),
      ev_details = Some []\<rparr>"

definition late_event :: event where
  "late_event =
     \<lparr>ev_ts = Some (PInt 253402300800),
      ev_type = Some (PStr ''read''),
      ev_success = Some (PBool True),
      ev_details = Some []\<rparr>"

definition sample_file :: "event list \<Rightarrow> file_info" where
  "sample_file evs = \<lparr>path = ''/tmp/x'', status = ''open'', is_open = True, event_history = evs\<rparr>"

text \<open>A watched-path object whose \<^verbatim>\<open>path\<close> is \<^verbatim>\<open>None\<close>, and a screen whose table holds a row.\<close>

definition no_path_object :: "event list \<Rightarrow> file_object" where
  "no_path_object evs = \<lparr>path = PNone, status = ''open'', is_open = True, event_history = evs\<rparr>"

definition one_row_screen :: screen where
  "one_row_screen =
     \<lparr>header = [],
      table = \<lparr>columns = [], rows = [[Text ''earlier row'' []]], focused = False\<rparr>,
      logged = [],
      notifications = []\<rparr>"

section \<open>Properties\<close>

subsection \<open>Reading the state\<close>

lemma table_of_updates [simp]:
  "rows (table (add_row r st)) = rows (table st) @ [r]"
  "rows (table (add_column l k w st)) = rows (table st)"
  "rows (table (log_add es st)) = rows (table st)"
  "rows (table (notify m s st)) = rows (table st)"
  "rows (table (clear_rows st)) = []"
  "rows (table (focus st)) = rows (table st)"
  "rows (table (st\<lparr>header := h\<rparr>)) = rows (table st)"
  by (simp_all add: add_row_def add_column_def log_add_def notify_def clear_rows_def focus_def)

lemma logged_of_updates [simp]:
  "logged (add_row r st) = logged st"
  "logged (add_column l k w st) = logged st"
  "logged (log_add es st) = logged st @ es"
  "logged (notify m s st) = logged st"
  "logged (clear_rows st) = logged st"
  "logged (focus st) = logged st"
  by (simp_all add: add_row_def add_column_def log_add_def notify_def clear_rows_def focus_def)

lemma notifications_of_updates [simp]:
  "notifications (add_row r st) = notifications st"
  "notifications (add_column l k w st) = notifications st"
  "notifications (log_add es st) = notifications st"
  "notifications (notify m s st) = notifications st @ [(m, s)]"
  "notifications (clear_rows st) = notifications st"
  "notifications (focus st) = notifications st"
  by (simp_all add: add_row_def add_column_def log_add_def notify_def clear_rows_def focus_def)

lemma focused_of_updates [simp]:
  "focused (table (add_row r st)) = focused (table st)"
  "focused (table (add_column l k w st)) = focused (table st)"
  "focused (table (log_add es st)) = focused (table st)"
  "focused (table (notify m s st)) = focused (table st)"
  "focused (table (clear_rows st)) = focused (table st)"
  "focused (table (focus st)) = True"
  by (simp_all add: add_row_def add_column_def log_add_def notify_def clear_rows_def focus_def)

lemma compose_fields [simp]:
  "rows (table (compose env fi)) = []"
  "logged (compose env fi) = []"
  "notifications (compose env fi) = []"
  "focused (table (compose env fi)) = False"
  by (simp_all add: compose_def)

subsection \<open>The empty history\<close>

text \<open>
  C4. If the event history is empty, \<^verbatim>\<open>on_mount\<close> adds exactly one row, whose only cell is
  the dim text "No event history recorded for this file."; on the screen as \<^verbatim>\<open>compose\<close>
  leaves it the table then holds that row and nothing else. No event is processed: the
  method returns before the loop and before the table is focused, the only message logged
  is the debug line at the start, so nothing is logged at warning or error level, nobody
  is notified, and no exception leaves the method.
\<close>

theorem empty_history_one_row:
  assumes "event_history fi = []"
  shows "rows (table (mounted env fi st)) =
           rows (table st) @ [[Text ''No event history recorded for this file.'' ''dim'']]
       \<and> rows (table (mounted env fi (compose env fi))) =
           [[Text ''No event history recorded for this file.'' ''dim'']]
       \<and> logged (mounted env fi st) = logged st @ [Populating 0 (path fi)]
       \<and> level (Populating 0 (path fi)) = DEBUG
       \<and> notifications (mounted env fi st) = notifications st
       \<and> focused (table (mounted env fi st)) = focused (table st)
       \<and> fst (on_mount env fi st) = None"
proof -
  have body: "\<And>s. on_mount_body env fi s =
      (None, add_row [Text no_history_text ''dim'']
        (log_add [Populating 0 (path fi)]
          (add_column ''Details'' ''details'' None
            (add_column ''Result'' ''result'' (Some 6)
              (add_column ''Event'' ''event'' (Some 12)
                (add_column ''Timestamp'' ''ts'' (Some 12)
                  (s\<lparr>header := create_header_text env fi\<rparr>)))))))"
    using assms by (simp add: on_mount_body_def)
  show ?thesis
    by (simp add: mounted_def on_mount_def body no_history_text_def)
qed

theorem empty_history_one_row_witness:
  "event_history (sample_file []) = []
   \<and> rows (table (mounted sample_env (sample_file []) (compose sample_env (sample_file [])))) =
       [[\<lparr>plain = ''No event history recorded for this file.'', style = ''dim''\<rparr>]]"
  using empty_history_one_row [of "sample_file []" sample_env "compose sample_env (sample_file [])"]
  by (simp add: sample_file_def Text_def strip_control_codes_def)

subsection \<open>The loop over the events\<close>

lemma header_update_fields [simp]:
  "logged (st\<lparr>header := h\<rparr>) = logged st"
  "notifications (st\<lparr>header := h\<rparr>) = notifications st"
  "focused (table (st\<lparr>header := h\<rparr>)) = focused (table st)"
  by simp_all

text \<open>
  When every event gives a row, the loop appends the rows in the order of the events and
  returns normally; \<open>rs\<close> lists the rows, position by position.
\<close>

lemma add_event_rows_all_ok:
  "list_all2 (\<lambda>ev r. fst (format_event env ev) = Inr r) evs rs \<Longrightarrow>
   \<exists>st'. add_event_rows env evs st = (None, st')
     \<and> rows (table st') = rows (table st) @ rs
     \<and> notifications st' = notifications st
     \<and> focused (table st') = focused (table st)
     \<and> logged st' = logged st @ concat (map (\<lambda>ev. snd (format_event env ev)) evs)"
proof (induction evs arbitrary: rs st)
  case Nil
  then show ?case by simp
next
  case (Cons ev evs)
  from Cons.prems obtain r rs' where rs: "rs = r # rs'"
    and r: "fst (format_event env ev) = Inr r"
    and rest: "list_all2 (\<lambda>ev r. fst (format_event env ev) = Inr r) evs rs'"
    by (auto simp: list_all2_Cons1)
  obtain lg where fe: "format_event env ev = (Inr r, lg)"
    using r by (cases "format_event env ev") auto
  from Cons.IH [OF rest, of "add_row r (log_add lg st)"]
  show ?case using fe rs by auto
qed

text \<open>The first event that raises ends the loop with its exception.\<close>

lemma add_event_rows_fails:
  "list_all2 (\<lambda>ev r. fst (format_event env ev) = Inr r) evs1 rs \<Longrightarrow>
   fst (format_event env ev) = Inl e \<Longrightarrow>
   \<exists>st'. add_event_rows env (evs1 @ ev # evs2) st = (Some e, st')
     \<and> rows (table st') = rows (table st) @ rs
     \<and> notifications st' = notifications st
     \<and> focused (table st') = focused (table st)
     \<and> logged st' =
         logged st @ concat (map (\<lambda>ev. snd (format_event env ev)) (evs1 @ [ev]))"
proof (induction evs1 arbitrary: rs st)
  case Nil
  obtain lg where fe: "format_event env ev = (Inl e, lg)"
    using Nil.prems(2) by (cases "format_event env ev") auto
  then show ?case using Nil.prems(1) by simp
next
  case (Cons ev1 evs1)
  from Cons.prems(1) obtain r rs' where rs: "rs = r # rs'"
    and r: "fst (format_event env ev1) = Inr r"
    and rest: "list_all2 (\<lambda>ev r. fst (format_event env ev) = Inr r) evs1 rs'"
    by (auto simp: list_all2_Cons1)
  obtain lg where fe: "format_event env ev1 = (Inr r, lg)"
    using r by (cases "format_event env ev1") auto
  from Cons.IH [OF rest Cons.prems(2), of "add_row r (log_add lg st)"]
  show ?case using fe rs by auto
qed

lemma add_event_rows_notifications:
  "notifications (snd (add_event_rows env evs st)) = notifications st"
proof (induction evs arbitrary: st)
  case Nil
  then show ?case by simp
next
  case (Cons ev evs)
  show ?case
  proof (cases "format_event env ev")
    case (Pair res lg)
    then show ?thesis using Cons.IH by (cases res) auto
  qed
qed

text \<open>The state in which the loop starts: header set, four columns, the debug line logged.\<close>

lemma on_mount_body_nonempty:
  assumes "event_history fi \<noteq> []"
  shows "\<exists>st0. rows (table st0) = rows (table st)
           \<and> notifications st0 = notifications st
           \<and> logged st0 = logged st @ [Populating (length (event_history fi)) (path fi)]
           \<and> on_mount_body env fi st =
               (case add_event_rows env (event_history fi) st0 of
                  (Some e, st4) \<Rightarrow> (Some e, st4)
                | (None, st4) \<Rightarrow> (None, focus st4))"
proof -
  let ?st0 = "log_add [Populating (length (event_history fi)) (path fi)]
      (add_column ''Details'' ''details'' None
        (add_column ''Result'' ''result'' (Some 6)
          (add_column ''Event'' ''event'' (Some 12)
            (add_column ''Timestamp'' ''ts'' (Some 12)
              (st\<lparr>header := create_header_text env fi\<rparr>)))))"
  have "on_mount_body env fi st =
      (case add_event_rows env (event_history fi) ?st0 of
         (Some e, st4) \<Rightarrow> (Some e, st4)
       | (None, st4) \<Rightarrow> (None, focus st4))"
    using assms by (simp add: on_mount_body_def Let_def)
  then show ?thesis
    by (intro exI [of _ ?st0]) simp
qed

lemma on_mount_body_notifications:
  "notifications (snd (on_mount_body env fi st)) = notifications st"
proof (cases "event_history fi = []")
  case True
  then show ?thesis by (simp add: on_mount_body_def)
next
  case False
  from on_mount_body_nonempty [OF False, of st env] obtain st0 where
    n0: "notifications st0 = notifications st" and
    body: "on_mount_body env fi st =
      (case add_event_rows env (event_history fi) st0 of
         (Some e, st4) \<Rightarrow> (Some e, st4)
       | (None, st4) \<Rightarrow> (None, focus st4))"
    by blast
  obtain res st4 where loop: "add_event_rows env (event_history fi) st0 = (res, st4)"
    by (cases "add_event_rows env (event_history fi) st0")
  have "notifications st4 = notifications st0"
    using add_event_rows_notifications [of env "event_history fi" st0] loop by simp
  then show ?thesis using body loop n0 by (cases res) simp_all
qed

text \<open>What the handler leaves, whatever the body had built.\<close>

lemma on_mount_after_raise:
  assumes "on_mount_body env fi st = (Some e, st')"
  shows "rows (table (mounted env fi st)) = [error_row e]"
    and "notifications (mounted env fi st) =
           notifications st @ [(''Error loading details.'', ''error'')]"
    and "logged (mounted env fi st) = logged st' @ [Populating_failed (path fi) e]"
    and "fst (on_mount env fi st) = None"
proof -
  have "notifications st' = notifications st"
    using on_mount_body_notifications [of env fi st] assms by simp
  then show "notifications (mounted env fi st) =
           notifications st @ [(''Error loading details.'', ''error'')]"
    using assms by (simp add: mounted_def on_mount_def on_mount_handler_def)
qed (use assms in \<open>simp_all add: mounted_def on_mount_def on_mount_handler_def\<close>)

lemma history_with_failure:
  assumes ok: "list_all2 (\<lambda>ev r. fst (format_event env ev) = Inr r) evs1 rs"
      and bad: "fst (format_event env ev) = Inl e"
      and hist: "event_history fi = evs1 @ ev # evs2"
  shows "\<exists>st'. on_mount_body env fi st = (Some e, st') \<and> rows (table st') = rows (table st) @ rs"
proof -
  have ne: "event_history fi \<noteq> []" using hist by simp
  from on_mount_body_nonempty [OF ne, of st env] obtain st0 where
    r0: "rows (table st0) = rows (table st)" and
    body: "on_mount_body env fi st =
      (case add_event_rows env (event_history fi) st0 of
         (Some e, st4) \<Rightarrow> (Some e, st4)
       | (None, st4) \<Rightarrow> (None, focus st4))"
    by blast
  from add_event_rows_fails [OF ok bad, of evs2 st0] obtain st' where
    "add_event_rows env (evs1 @ ev # evs2) st0 = (Some e, st')"
    "rows (table st') = rows (table st0) @ rs"
    by blast
  then show ?thesis using body hist r0 by simp
qed

lemma history_all_ok:
  assumes ok: "list_all2 (\<lambda>ev r. fst (format_event env ev) = Inr r) (event_history fi) rs"
      and ne: "event_history fi \<noteq> []"
  shows "\<exists>st'. on_mount_body env fi st = (None, st')
           \<and> rows (table st') = rows (table st) @ rs
           \<and> notifications st' = notifications st
           \<and> focused (table st')
           \<and> logged st' = logged st @ Populating (length (event_history fi)) (path fi) #
                 concat (map (\<lambda>ev. snd (format_event env ev)) (event_history fi))"
proof -
  from on_mount_body_nonempty [OF ne, of st env] obtain st0 where
    r0: "rows (table st0) = rows (table st)" and
    n0: "notifications st0 = notifications st" and
    l0: "logged st0 = logged st @ [Populating (length (event_history fi)) (path fi)]" and
    body: "on_mount_body env fi st =
      (case add_event_rows env (event_history fi) st0 of
         (Some e, st4) \<Rightarrow> (Some e, st4)
       | (None, st4) \<Rightarrow> (None, focus st4))"
    by blast
  from add_event_rows_all_ok [OF ok, of st0] obtain st4 where
    "add_event_rows env (event_history fi) st0 = (None, st4)"
    "rows (table st4) = rows (table st0) @ rs"
    "notifications st4 = notifications st0"
    "logged st4 = logged st0 @ concat (map (\<lambda>ev. snd (format_event env ev)) (event_history fi))"
    by blast
  then show ?thesis using body r0 n0 l0 by simp
qed

subsection \<open>A path of any type\<close>

text \<open>For a path of bytes the two embeddings of \<^verbatim>\<open>on_mount\<close> agree.\<close>

lemma create_header_text_any_bytes:
  "create_header_text_any env (as_object fi) = Inr (create_header_text env fi)"
  by (simp add: create_header_text_any_def create_header_text_def short_path_any_def
      as_object_def)

lemma on_mount_body_any_bytes:
  "on_mount_body_any env (as_object fi) st = on_mount_body env fi st"
proof -
  have "path (as_object fi) = PBytes (path fi)"
    "event_history (as_object fi) = event_history fi"
    by (simp_all add: as_object_def)
  then show ?thesis
    by (simp add: on_mount_body_any_def on_mount_body_def create_header_text_any_bytes)
qed

lemma on_mount_any_bytes:
  "on_mount_any env (as_object fi) st = on_mount env fi st"
proof -
  have p: "path (as_object fi) = PBytes (path fi)"
    by (simp add: as_object_def)
  show ?thesis
  proof (cases "on_mount_body env fi st")
    case (Pair res st')
    then show ?thesis
      by (cases res)
        (simp_all add: on_mount_any_def on_mount_def on_mount_body_any_bytes
          on_mount_handler_any_def on_mount_handler_def p)
  qed
qed

text \<open>The body adds no row before the loop and notifies nobody.\<close>

lemma on_mount_body_any_notifications:
  "notifications (snd (on_mount_body_any env fo st)) = notifications st"
proof (cases "create_header_text_any env fo")
  case (Inl e)
  then show ?thesis by (simp add: on_mount_body_any_def)
next
  case (Inr h)
  note h = this
  show ?thesis
  proof (cases "os_fsdecode (path fo)")
    case (Inl e)
    with h show ?thesis by (simp add: on_mount_body_any_def)
  next
    case (Inr p)
    note p = this
    show ?thesis
    proof (cases "event_history fo = []")
      case True
      with h p show ?thesis by (simp add: on_mount_body_any_def)
    next
      case False
      let ?st3 = "log_add [Populating (length (event_history fo)) p]
          (add_column ''Details'' ''details'' None
            (add_column ''Result'' ''result'' (Some 6)
              (add_column ''Event'' ''event'' (Some 12)
                (add_column ''Timestamp'' ''ts'' (Some 12) (st\<lparr>header := h\<rparr>)))))"
      obtain res st4 where loop: "add_event_rows env (event_history fo) ?st3 = (res, st4)"
        by (cases "add_event_rows env (event_history fo) ?st3")
      have "notifications st4 = notifications ?st3"
        using add_event_rows_notifications [of env "event_history fo" ?st3] loop by simp
      then have n: "notifications st4 = notifications st" by simp
      have "on_mount_body_any env fo st =
          (case res of Some e \<Rightarrow> (Some e, st4) | None \<Rightarrow> (None, focus st4))"
        using h p False loop by (simp add: on_mount_body_any_def Let_def)
      then show ?thesis using n by (cases res) simp_all
    qed
  qed
qed

text \<open>
  When \<^verbatim>\<open>os.fsdecode\<close> raises for the path, the body raises before the debug line is
  logged: at line 70 if \<^verbatim>\<open>short_path\<close> raises, at line 83 otherwise.
\<close>

lemma on_mount_body_any_no_path:
  assumes "os_fsdecode (path fo) = Inl e"
  shows "\<exists>e0 st'. on_mount_body_any env fo st = (Some e0, st')
           \<and> rows (table st') = rows (table st)
           \<and> logged st' = logged st
           \<and> notifications st' = notifications st"
proof (cases "create_header_text_any env fo")
  case (Inl e0)
  then show ?thesis by (simp add: on_mount_body_any_def)
next
  case (Inr h)
  with assms show ?thesis by (simp add: on_mount_body_any_def)
qed

subsection \<open>The shape of one row\<close>

lemma format_event_ok:
  assumes "format_ts env (get_ts ev) = (Inr ts_str, lg)"
      and "format_details env (get_details ev) (get_success ev) = Inr ds"
  shows "format_event env ev =
     (Inr [Text ts_str [],
           Text ((if \<not> truthy (get_success ev) then emoji_get env ''ERROR''
                  else emoji_get env (str_upper env (py_str env (get_type ev)))) @ '' '' @
                 str_upper env (py_str env (get_type ev))) [],
           (if truthy (get_success ev) then Text ''OK'' ''green'' else Text ''FAIL'' ''red''),
           Text (short_path env (utf8_encode ds) 100) []], lg)"
  using assms by (simp add: format_event_def Let_def)

lemma format_event_ts_raises:
  assumes "format_ts env (get_ts ev) = (Inl e, lg)"
  shows "format_event env ev = (Inl e, lg)"
  using assms by (simp add: format_event_def Let_def)

lemma format_event_details_raises:
  assumes "format_ts env (get_ts ev) = (Inr ts_str, lg)"
      and "format_details env (get_details ev) (get_success ev) = Inl e"
  shows "format_event env ev = (Inl e, lg)"
  using assms by (simp add: format_event_def Let_def)

text \<open>A row comes from a timestamp text and a details text.\<close>

lemma format_event_row:
  assumes "format_event env ev = (Inr row, lg)"
  shows "\<exists>ts_str ds. format_ts env (get_ts ev) = (Inr ts_str, lg)
           \<and> format_details env (get_details ev) (get_success ev) = Inr ds
           \<and> row = [Text ts_str [],
                 Text ((if \<not> truthy (get_success ev) then emoji_get env ''ERROR''
                        else emoji_get env (str_upper env (py_str env (get_type ev)))) @ '' '' @
                       str_upper env (py_str env (get_type ev))) [],
                 (if truthy (get_success ev) then Text ''OK'' ''green''
                  else Text ''FAIL'' ''red''),
                 Text (short_path env (utf8_encode ds) 100) []]"
proof (cases "format_ts env (get_ts ev)")
  case (Pair res lg')
  show ?thesis
  proof (cases res)
    case (Inl e)
    with Pair assms show ?thesis by (simp add: format_event_def Let_def)
  next
    case (Inr ts_str)
    note ts = Pair [unfolded Inr]
    show ?thesis
    proof (cases "format_details env (get_details ev) (get_success ev)")
      case (Inl e)
      with ts assms show ?thesis by (simp add: format_event_def Let_def)
    next
      case (Inr ds)
      from format_event_ok [OF ts Inr] assms ts Inr show ?thesis by simp
    qed
  qed
qed

subsection \<open>The sample events, evaluated\<close>

lemma digit_char_eval:
  "digit_char 0 = CHR ''0''" "digit_char (Suc 0) = CHR ''1''" "digit_char 2 = CHR ''2''"
  "digit_char 3 = CHR ''3''" "digit_char 4 = CHR ''4''" "digit_char 5 = CHR ''5''"
  "digit_char 6 = CHR ''6''" "digit_char 7 = CHR ''7''" "digit_char 8 = CHR ''8''"
  "digit_char 9 = CHR ''9''"
  by code_simp+

lemma replicate_eval:
  "replicate (Suc 0) x = [x]" "replicate 2 x = [x, x]" "replicate 3 x = [x, x, x]"
  "replicate 4 x = [x, x, x, x]" "replicate 5 x = [x, x, x, x, x]"
  by (simp_all add: numeral_eq_Suc)

lemma digits10_small: "n < 10 \<Longrightarrow> digits10 n = [digit_char n]"
  by (simp add: digits10.simps)

lemma digits10_big: "10 \<le> n \<Longrightarrow> digits10 n = digits10 (n div 10) @ [digit_char (n mod 10)]"
  by (subst digits10.simps) simp

lemma bit_len_0: "bit_len 0 = 0"
  by (simp add: bit_len.simps)

lemma bit_len_pos: "0 < n \<Longrightarrow> bit_len n = Suc (bit_len (n div 2))"
  by (subst bit_len.simps) simp

lemmas number_eval = digit_char_eval replicate_eval digits10_small digits10_big
  bit_len_0 bit_len_pos zero_pad_def thousandths_def round_half_even_def int_to_float_def

lemmas clock_eval = sample_env_def utc_fromtimestamp_def drop_last3_def strftime_HMSf_def
  caught_by_ts_handler_def

lemma read_event_ts:
  "format_ts sample_env (get_ts read_event) = (Inr ''22:13:20.123'', [])"
  by (simp add: get_ts_def read_event_def format_ts_def number_eval clock_eval)

lemma read_event_fields:
  "get_type read_event = PStr ''read''"
  "get_success read_event = PBool True"
  "get_details read_event = [(''fd'', PInt 3)]"
  by (simp_all add: get_type_def get_success_def get_details_def read_event_def)

lemma read_event_row:
  "format_event sample_env read_event =
     (Inr [\<lparr>plain = ''22:13:20.123'', style = []\<rparr>, \<lparr>plain = ''r READ'', style = []\<rparr>,
           \<lparr>plain = ''OK'', style = ''green''\<rparr>, \<lparr>plain = ''fd=3'', style = []\<rparr>], [])"
proof -
  have "format_details sample_env [(''fd'', PInt 3)] (PBool True) = Inr ''fd=3''"
    by code_simp
  then have ds:
    "format_details sample_env (get_details read_event) (get_success read_event) = Inr ''fd=3''"
    by (simp add: read_event_fields)
  show ?thesis
    unfolding format_event_ok [OF read_event_ts ds] read_event_fields by code_simp
qed

lemma enoent_event_ts: "format_ts sample_env (get_ts enoent_event) = (Inr ''0.000'', [])"
  by (simp add: get_ts_def enoent_event_def format_ts_def number_eval)

lemma enoent_event_details:
  "format_details sample_env (get_details enoent_event) (get_success enoent_event) =
     Inr (''error_name='ENOENT', ERROR='ENOENT'' @ [CHR 0x27])"
  by code_simp

lemma enoent_event_row:
  "format_event sample_env enoent_event =
     (Inr [\<lparr>plain = ''0.000'', style = []\<rparr>, \<lparr>plain = ''! OPEN'', style = []\<rparr>,
           \<lparr>plain = ''FAIL'', style = ''red''\<rparr>,
           \<lparr>plain = ''error_name='ENOENT', ERROR='ENOENT'' @ [CHR 0x27], style = []\<rparr>], [])"
  unfolding format_event_ok [OF enoent_event_ts enoent_event_details] by code_simp

lemma bytes_path_event_ts: "format_ts sample_env (get_ts bytes_path_event) = (Inr ''00:00:05.000'', [])"
  by (simp add: get_ts_def bytes_path_event_def format_ts_def number_eval clock_eval)

lemma bytes_path_event_raises:
  "format_event sample_env bytes_path_event =
     (Inl (Exn TypeError
        ''_fscodec.<locals>.fsdecode() takes 1 positional argument but 2 were given''), [])"
proof -
  have "format_details sample_env (get_details bytes_path_event) (get_success bytes_path_event) =
      Inl (Exn TypeError
        ''_fscodec.<locals>.fsdecode() takes 1 positional argument but 2 were given'')"
    by code_simp
  from format_event_details_raises [OF bytes_path_event_ts this] show ?thesis .
qed

lemma text_ts_event_raises:
  "format_event sample_env text_ts_event =
     (Inl (Exn ValueError (''Unknown format code 'f' for object of type 'str'' @ [CHR 0x27])), [])"
proof -
  have "format_ts sample_env (get_ts text_ts_event) =
      (Inl (Exn ValueError (''Unknown format code 'f' for object of type 'str'' @ [CHR 0x27])), [])"
    by (simp add: get_ts_def text_ts_event_def format_ts_def)
  from format_event_ts_raises [OF this] show ?thesis .
qed

lemma late_event_ts:
  "format_ts sample_env (get_ts late_event) =
     (Inr ''253402300800.000'',
      [Bad_timestamp (PInt 253402300800) (Exn ValueError ''year is out of range'')])"
  by (simp add: get_ts_def late_event_def format_ts_def number_eval clock_eval)

lemma late_event_row:
  "format_event sample_env late_event =
     (Inr [\<lparr>plain = ''253402300800.000'', style = []\<rparr>, \<lparr>plain = ''r READ'', style = []\<rparr>,
           \<lparr>plain = ''OK'', style = ''green''\<rparr>, \<lparr>plain = [], style = []\<rparr>],
      [Bad_timestamp (PInt 253402300800) (Exn ValueError ''year is out of range'')])"
proof -
  have ds: "format_details sample_env (get_details late_event) (get_success late_event) = Inr []"
    by code_simp
  show ?thesis
    unfolding format_event_ok [OF late_event_ts ds] by code_simp
qed

subsection \<open>A failure of the whole build\<close>

text \<open>
  C7. The handler of the outer \<^verbatim>\<open>try\<close> recovers exactly when \<^verbatim>\<open>os.fsdecode\<close> returns for the
  path of the watched-path object.
  \<^item> If \<^verbatim>\<open>os.fsdecode(self.file_info.path)\<close> raises \<open>e\<close> (the path is \<^verbatim>\<open>None\<close> or a number:
    the watched-path object is malformed), the body raises, at line 83 at the latest. The
    handler then raises \<open>e\<close> itself at line 190, in the argument of \<^verbatim>\<open>log.exception\<close>, and
    \<open>e\<close> leaves \<^verbatim>\<open>on_mount\<close>: the rows of the table are as they were, so nothing is cleared
    and there is no fallback row, nothing is logged and nobody is notified.
  \<^item> If it returns, no exception leaves \<^verbatim>\<open>on_mount\<close>. If the body raises an exception \<open>e\<close>,
    whatever it had built, the handler clears the rows and adds exactly one row, whose only
    cell is the bold red text "Error loading details: " followed by the message of \<open>e\<close>;
    it logs the failure and sends the notification "Error loading details." with
    severity error.
\<close>

theorem malformed_path_escapes_handler:
  "(os_fsdecode (path fo) = Inl e \<longrightarrow>
      fst (on_mount_any env fo st) = Some e
    \<and> rows (table (mounted_any env fo st)) = rows (table st)
    \<and> logged (mounted_any env fo st) = logged st
    \<and> notifications (mounted_any env fo st) = notifications st)
   \<and> (os_fsdecode (path fo) = Inr p \<longrightarrow>
      fst (on_mount_any env fo st) = None
    \<and> (\<forall>e st'. on_mount_body_any env fo st = (Some e, st') \<longrightarrow>
          rows (table (mounted_any env fo st)) =
            [[Text (''Error loading details: '' @ exn_str e) ''bold red'']]
        \<and> notifications (mounted_any env fo st) =
            notifications st @ [(''Error loading details.'', ''error'')]
        \<and> logged (mounted_any env fo st) = logged st' @ [Populating_failed p e]))"
proof (intro conjI impI allI)
  assume bad: "os_fsdecode (path fo) = Inl e"
  from on_mount_body_any_no_path [OF bad, of env st] obtain e0 st' where
    body: "on_mount_body_any env fo st = (Some e0, st')" and
    same: "rows (table st') = rows (table st)" "logged st' = logged st"
      "notifications st' = notifications st"
    by blast
  have "on_mount_any env fo st = (Some e, st')"
    using body bad by (simp add: on_mount_any_def on_mount_handler_any_def)
  then show "fst (on_mount_any env fo st) = Some e"
    and "rows (table (mounted_any env fo st)) = rows (table st)"
    and "logged (mounted_any env fo st) = logged st"
    and "notifications (mounted_any env fo st) = notifications st"
    using same by (simp_all add: mounted_any_def)
next
  assume good: "os_fsdecode (path fo) = Inr p"
  show "fst (on_mount_any env fo st) = None"
  proof (cases "on_mount_body_any env fo st")
    case (Pair res st')
    then show ?thesis
      using good by (cases res) (simp_all add: on_mount_any_def on_mount_handler_any_def)
  qed
  fix e st'
  assume body: "on_mount_body_any env fo st = (Some e, st')"
  have n: "notifications st' = notifications st"
    using on_mount_body_any_notifications [of env fo st] body by simp
  have "on_mount_any env fo st =
      (None, notify ''Error loading details.'' ''error''
               (add_row (error_row e) (clear_rows (log_add [Populating_failed p e] st'))))"
    using body good by (simp add: on_mount_any_def on_mount_handler_any_def)
  then show "rows (table (mounted_any env fo st)) =
        [[Text (''Error loading details: '' @ exn_str e) ''bold red'']]"
    and "notifications (mounted_any env fo st) =
        notifications st @ [(''Error loading details.'', ''error'')]"
    and "logged (mounted_any env fo st) = logged st' @ [Populating_failed p e]"
    using n by (simp_all add: mounted_any_def error_row_def)
qed

theorem malformed_path_escapes_handler_witness:
  "os_fsdecode (path (no_path_object [read_event])) =
     Inl (Exn TypeError ''expected str, bytes or os.PathLike object, not NoneType'')
   \<and> fst (on_mount_any sample_env (no_path_object [read_event]) one_row_screen) =
     Some (Exn TypeError ''expected str, bytes or os.PathLike object, not NoneType'')
   \<and> rows (table (mounted_any sample_env (no_path_object [read_event]) one_row_screen)) =
     [[\<lparr>plain = ''earlier row'', style = []\<rparr>]]
   \<and> logged (mounted_any sample_env (no_path_object [read_event]) one_row_screen) = []
   \<and> notifications (mounted_any sample_env (no_path_object [read_event]) one_row_screen) = []
   \<and> os_fsdecode (path (as_object (sample_file [read_event, bytes_path_event]))) =
     Inr ''/tmp/x''
   \<and> fst (on_mount_body_any sample_env (as_object (sample_file [read_event, bytes_path_event]))
          one_row_screen) =
     Some (Exn TypeError
       ''_fscodec.<locals>.fsdecode() takes 1 positional argument but 2 were given'')
   \<and> fst (on_mount_any sample_env (as_object (sample_file [read_event, bytes_path_event]))
          one_row_screen) = None
   \<and> rows (table (mounted_any sample_env (as_object (sample_file [read_event, bytes_path_event]))
          one_row_screen)) =
     [[\<lparr>plain = ''Error loading details: _fscodec.<locals>.fsdecode() takes 1 positional argument but 2 were given'',
        style = ''bold red''\<rparr>]]
   \<and> notifications (mounted_any sample_env
          (as_object (sample_file [read_event, bytes_path_event])) one_row_screen) =
     [(''Error loading details.'', ''error'')]"
proof -
  let ?o = "no_path_object [read_event]"
  let ?n = "Exn TypeError ''expected str, bytes or os.PathLike object, not NoneType''"
  let ?f = "sample_file [read_event, bytes_path_event]"
  let ?e = "Exn TypeError
       ''_fscodec.<locals>.fsdecode() takes 1 positional argument but 2 were given''"
  have none: "os_fsdecode (path ?o) = Inl ?n"
    by (simp add: no_path_object_def fspath_error_def)
  have screen: "rows (table one_row_screen) = [[\<lparr>plain = ''earlier row'', style = []\<rparr>]]"
    "logged one_row_screen = []" "notifications one_row_screen = []"
    by (simp_all add: one_row_screen_def Text_def strip_control_codes_def)
  have bytes: "os_fsdecode (path (as_object ?f)) = Inr ''/tmp/x''"
    by (simp add: as_object_def sample_file_def)
  have ok: "list_all2 (\<lambda>ev r. fst (format_event sample_env ev) = Inr r) [read_event]
      [[\<lparr>plain = ''22:13:20.123'', style = []\<rparr>, \<lparr>plain = ''r READ'', style = []\<rparr>,
        \<lparr>plain = ''OK'', style = ''green''\<rparr>, \<lparr>plain = ''fd=3'', style = []\<rparr>]]"
    by (simp add: read_event_row)
  have bad: "fst (format_event sample_env bytes_path_event) = Inl ?e"
    by (simp add: bytes_path_event_raises)
  have hist: "event_history ?f = [read_event] @ bytes_path_event # []"
    by (simp add: sample_file_def)
  from history_with_failure [OF ok bad hist, of one_row_screen]
  obtain st' where "on_mount_body sample_env ?f one_row_screen = (Some ?e, st')"
    by blast
  then have body: "on_mount_body_any sample_env (as_object ?f) one_row_screen = (Some ?e, st')"
    by (simp only: on_mount_body_any_bytes)
  from malformed_path_escapes_handler [of ?o ?n sample_env one_row_screen "[]"] none
  have first: "fst (on_mount_any sample_env ?o one_row_screen) = Some ?n"
    "rows (table (mounted_any sample_env ?o one_row_screen)) = rows (table one_row_screen)"
    "logged (mounted_any sample_env ?o one_row_screen) = logged one_row_screen"
    "notifications (mounted_any sample_env ?o one_row_screen) = notifications one_row_screen"
    by blast+
  from malformed_path_escapes_handler
    [of "as_object ?f" ?n sample_env one_row_screen "''/tmp/x''"] bytes body
  have second: "fst (on_mount_any sample_env (as_object ?f) one_row_screen) = None"
    "rows (table (mounted_any sample_env (as_object ?f) one_row_screen)) =
       [[Text (''Error loading details: '' @ exn_str ?e) ''bold red'']]"
    "notifications (mounted_any sample_env (as_object ?f) one_row_screen) =
       notifications one_row_screen @ [(''Error loading details.'', ''error'')]"
    by blast+
  from second(2) have row: "rows (table (mounted_any sample_env (as_object ?f) one_row_screen)) =
      [[\<lparr>plain = ''Error loading details: _fscodec.<locals>.fsdecode() takes 1 positional argument but 2 were given'',
         style = ''bold red''\<rparr>]]"
    by (simp add: Text_def strip_control_codes_def)
  show ?thesis
    using none first screen bytes body second(1,3) row by simp
qed

subsection \<open>An event that raises\<close>

text \<open>The first event of a history that raises, and the rows of the events before it.\<close>

lemma rows_of_all:
  "\<forall>y\<in>set evs. \<exists>r. fst (format_event env y) = Inr r \<Longrightarrow>
   \<exists>rs. list_all2 (\<lambda>ev r. fst (format_event env ev) = Inr r) evs rs"
proof (induction evs)
  case Nil
  then show ?case by simp
next
  case (Cons ev evs)
  then obtain r rs where "fst (format_event env ev) = Inr r"
    and "list_all2 (\<lambda>ev r. fst (format_event env ev) = Inr r) evs rs"
    by auto
  then have "list_all2 (\<lambda>ev r. fst (format_event env ev) = Inr r) (ev # evs) (r # rs)"
    by simp
  then show ?case by blast
qed

lemma first_failure:
  assumes "ev \<in> set evs" and "fst (format_event env ev) = Inl e"
  shows "\<exists>evs1 ev1 evs2 e1 rs. evs = evs1 @ ev1 # evs2
           \<and> list_all2 (\<lambda>ev r. fst (format_event env ev) = Inr r) evs1 rs
           \<and> fst (format_event env ev1) = Inl e1"
proof -
  let ?raises = "\<lambda>ev. \<exists>e. fst (format_event env ev) = Inl e"
  have "\<exists>x\<in>set evs. ?raises x" using assms by blast
  then have "\<exists>ys x zs. evs = ys @ x # zs \<and> ?raises x \<and> (\<forall>y\<in>set ys. \<not> ?raises y)"
    by (rule split_list_first_prop)
  then obtain evs1 ev1 evs2 where split: "evs = evs1 @ ev1 # evs2"
    and raises: "?raises ev1" and before: "\<forall>y\<in>set evs1. \<not> ?raises y"
    by blast
  from raises obtain e1 where e1: "fst (format_event env ev1) = Inl e1" by blast
  have "\<forall>y\<in>set evs1. \<exists>r. fst (format_event env y) = Inr r"
  proof
    fix y assume "y \<in> set evs1"
    with before have "\<not> ?raises y" by blast
    then show "\<exists>r. fst (format_event env y) = Inr r"
      by (cases "fst (format_event env y)") auto
  qed
  then have "\<exists>rs. list_all2 (\<lambda>ev r. fst (format_event env ev) = Inr r) evs1 rs"
    by (rule rows_of_all)
  with split e1 show ?thesis by blast
qed

text \<open>
  C2, as the code has it. The loop has no handler of its own. If formatting some event of
  the history raises, take the first event \<open>ev1\<close> of the history that raises, with its
  exception \<open>e1\<close>; the events before it gave the rows \<open>rs\<close>. The exception leaves the loop at
  \<open>ev1\<close> with the rows \<open>rs\<close> in the table, and no later event is formatted. The one handler
  around the whole build then clears the table, so the rows \<open>rs\<close> are discarded, and leaves
  exactly one row with the text "Error loading details: " and the message of \<open>e1\<close>,
  together with the error notification. No exception leaves the method.
\<close>

theorem failing_event_replaces_table:
  assumes "ev \<in> set (event_history fi)"
      and "fst (format_event env ev) = Inl e"
  shows "\<exists>evs1 ev1 evs2 e1 rs.
           event_history fi = evs1 @ ev1 # evs2
         \<and> list_all2 (\<lambda>ev r. fst (format_event env ev) = Inr r) evs1 rs
         \<and> fst (format_event env ev1) = Inl e1
         \<and> (\<exists>st'. on_mount_body env fi st = (Some e1, st')
               \<and> rows (table st') = rows (table st) @ rs)
         \<and> rows (table (mounted env fi st)) =
             [[Text (''Error loading details: '' @ exn_str e1) ''bold red'']]
         \<and> notifications (mounted env fi st) =
             notifications st @ [(''Error loading details.'', ''error'')]
         \<and> fst (on_mount env fi st) = None"
proof -
  from first_failure [OF assms] obtain evs1 ev1 evs2 e1 rs where
    hist: "event_history fi = evs1 @ ev1 # evs2" and
    ok: "list_all2 (\<lambda>ev r. fst (format_event env ev) = Inr r) evs1 rs" and
    bad: "fst (format_event env ev1) = Inl e1"
    by blast
  from history_with_failure [OF ok bad hist, of st]
  obtain st' where body: "on_mount_body env fi st = (Some e1, st')"
    and partial: "rows (table st') = rows (table st) @ rs"
    by blast
  from on_mount_after_raise [OF body]
  have "rows (table (mounted env fi st)) =
      [[Text (''Error loading details: '' @ exn_str e1) ''bold red'']]"
    "notifications (mounted env fi st) =
      notifications st @ [(''Error loading details.'', ''error'')]"
    "fst (on_mount env fi st) = None"
    by (simp_all add: error_row_def)
  with hist ok bad body partial show ?thesis by blast
qed

theorem failing_event_replaces_table_witness:
  "text_ts_event \<in> set (event_history (sample_file [late_event, text_ts_event, read_event]))
   \<and> fst (format_event sample_env text_ts_event) =
       Inl (Exn ValueError (''Unknown format code 'f' for object of type 'str'' @ [CHR 0x27]))
   \<and> (\<exists>e1. rows (table (mounted sample_env (sample_file [late_event, text_ts_event, read_event])
          (compose sample_env (sample_file [late_event, text_ts_event, read_event])))) =
        [[Text (''Error loading details: '' @ exn_str e1) ''bold red'']])
   \<and> notifications (mounted sample_env (sample_file [late_event, text_ts_event, read_event])
          (compose sample_env (sample_file [late_event, text_ts_event, read_event]))) =
       [(''Error loading details.'', ''error'')]"
proof -
  let ?f = "sample_file [late_event, text_ts_event, read_event]"
  have mem: "text_ts_event \<in> set (event_history ?f)"
    by (simp add: sample_file_def)
  have bad: "fst (format_event sample_env text_ts_event) =
      Inl (Exn ValueError (''Unknown format code 'f' for object of type 'str'' @ [CHR 0x27]))"
    by (simp add: text_ts_event_raises)
  from failing_event_replaces_table [OF mem bad, of "compose sample_env ?f"] mem bad
  show ?thesis
    by auto
qed

text \<open>
  C2, as the spec states it, fails: in the history read, open of a byte path, failed open,
  the second event raises; the table ends with the single error row, so the second event
  has no placeholder row of its own and the rows of the first and the third event are
  not there.
\<close>

theorem per_event_recovery_counterexample:
  "fst (format_event sample_env read_event) =
     Inr [\<lparr>plain = ''22:13:20.123'', style = []\<rparr>, \<lparr>plain = ''r READ'', style = []\<rparr>,
          \<lparr>plain = ''OK'', style = ''green''\<rparr>, \<lparr>plain = ''fd=3'', style = []\<rparr>]
   \<and> fst (format_event sample_env bytes_path_event) =
     Inl (Exn TypeError
       ''_fscodec.<locals>.fsdecode() takes 1 positional argument but 2 were given'')
   \<and> fst (format_event sample_env enoent_event) =
     Inr [\<lparr>plain = ''0.000'', style = []\<rparr>, \<lparr>plain = ''! OPEN'', style = []\<rparr>,
          \<lparr>plain = ''FAIL'', style = ''red''\<rparr>,
          \<lparr>plain = ''error_name='ENOENT', ERROR='ENOENT'' @ [CHR 0x27], style = []\<rparr>]
   \<and> rows (table (mounted sample_env (sample_file [read_event, bytes_path_event, enoent_event])
          (compose sample_env (sample_file [read_event, bytes_path_event, enoent_event])))) =
     [[\<lparr>plain = ''Error loading details: _fscodec.<locals>.fsdecode() takes 1 positional argument but 2 were given'',
        style = ''bold red''\<rparr>]]"
proof -
  let ?f = "sample_file [read_event, bytes_path_event, enoent_event]"
  let ?e = "Exn TypeError
       ''_fscodec.<locals>.fsdecode() takes 1 positional argument but 2 were given''"
  have ok: "list_all2 (\<lambda>ev r. fst (format_event sample_env ev) = Inr r) [read_event]
      [[\<lparr>plain = ''22:13:20.123'', style = []\<rparr>, \<lparr>plain = ''r READ'', style = []\<rparr>,
        \<lparr>plain = ''OK'', style = ''green''\<rparr>, \<lparr>plain = ''fd=3'', style = []\<rparr>]]"
    by (simp add: read_event_row)
  have bad: "fst (format_event sample_env bytes_path_event) = Inl ?e"
    by (simp add: bytes_path_event_raises)
  have hist: "event_history ?f = [read_event] @ bytes_path_event # [enoent_event]"
    by (simp add: sample_file_def)
  from history_with_failure [OF ok bad hist, of "compose sample_env ?f"]
  obtain st' where body: "on_mount_body sample_env ?f (compose sample_env ?f) = (Some ?e, st')"
    by blast
  from on_mount_after_raise(1) [OF body] show ?thesis
    by (simp add: read_event_row bytes_path_event_raises enoent_event_row error_row_def
        Text_def strip_control_codes_def)
qed

subsection \<open>One row for each event, in order\<close>

text \<open>
  C5, as the code has it. For every non-empty history in which formatting each event gives
  a row (\<open>row_of\<close> names it), \<^verbatim>\<open>on_mount\<close> appends exactly these rows, one for each event
  and in the order of the events: nothing is reordered, merged or dropped. The same holds
  for every permutation \<open>evs\<close> of the history. On the screen as \<^verbatim>\<open>compose\<close> leaves it the
  table holds these rows and no other.
\<close>

theorem rows_follow_events:
  assumes "event_history fi \<noteq> []"
      and "\<forall>ev\<in>set (event_history fi). fst (format_event env ev) = Inr (row_of ev)"
      and "mset evs = mset (event_history fi)"
  shows "rows (table (mounted env fi st)) = rows (table st) @ map row_of (event_history fi)
       \<and> rows (table (mounted env fi (compose env fi))) = map row_of (event_history fi)
       \<and> rows (table (mounted env (fi\<lparr>event_history := evs\<rparr>) st)) =
           rows (table st) @ map row_of evs
       \<and> rows (table (mounted env (fi\<lparr>event_history := evs\<rparr>)
             (compose env (fi\<lparr>event_history := evs\<rparr>)))) = map row_of evs"
proof -
  have general: "rows (table (mounted env f s)) = rows (table s) @ map row_of (event_history f)"
    if ne: "event_history f \<noteq> []"
      and all: "\<forall>ev\<in>set (event_history f). fst (format_event env ev) = Inr (row_of ev)"
    for f s
  proof -
    have "list_all2 (\<lambda>ev r. fst (format_event env ev) = Inr r)
        (event_history f) (map row_of (event_history f))"
      using all by (simp add: list_all2_conv_all_nth)
    from history_all_ok [OF this ne, of s] show ?thesis
      by (auto simp: mounted_def on_mount_def)
  qed
  have set_eq: "set evs = set (event_history fi)"
    using assms(3) by (rule mset_eq_setD)
  have ne': "event_history (fi\<lparr>event_history := evs\<rparr>) \<noteq> []"
    using assms(1) assms(3) by auto
  have all': "\<forall>ev\<in>set (event_history (fi\<lparr>event_history := evs\<rparr>)).
      fst (format_event env ev) = Inr (row_of ev)"
    using assms(2) set_eq by simp
  show ?thesis
    using general [OF assms(1) assms(2)] general [OF ne' all'] by simp
qed

theorem rows_follow_events_witness:
  "rows (table (mounted sample_env (sample_file [read_event, enoent_event])
      (compose sample_env (sample_file [read_event, enoent_event])))) =
     [[\<lparr>plain = ''22:13:20.123'', style = []\<rparr>, \<lparr>plain = ''r READ'', style = []\<rparr>,
       \<lparr>plain = ''OK'', style = ''green''\<rparr>, \<lparr>plain = ''fd=3'', style = []\<rparr>],
      [\<lparr>plain = ''0.000'', style = []\<rparr>, \<lparr>plain = ''! OPEN'', style = []\<rparr>,
       \<lparr>plain = ''FAIL'', style = ''red''\<rparr>,
       \<lparr>plain = ''error_name='ENOENT', ERROR='ENOENT'' @ [CHR 0x27], style = []\<rparr>]]
   \<and> rows (table (mounted sample_env
        ((sample_file [read_event, enoent_event])\<lparr>event_history := [enoent_event, read_event]\<rparr>)
        (compose sample_env
          ((sample_file [read_event, enoent_event])\<lparr>event_history := [enoent_event, read_event]\<rparr>)))) =
     [[\<lparr>plain = ''0.000'', style = []\<rparr>, \<lparr>plain = ''! OPEN'', style = []\<rparr>,
       \<lparr>plain = ''FAIL'', style = ''red''\<rparr>,
       \<lparr>plain = ''error_name='ENOENT', ERROR='ENOENT'' @ [CHR 0x27], style = []\<rparr>],
      [\<lparr>plain = ''22:13:20.123'', style = []\<rparr>, \<lparr>plain = ''r READ'', style = []\<rparr>,
       \<lparr>plain = ''OK'', style = ''green''\<rparr>, \<lparr>plain = ''fd=3'', style = []\<rparr>]]"
proof -
  let ?f = "sample_file [read_event, enoent_event]"
  let ?row_of = "\<lambda>ev. projr (fst (format_event sample_env ev))"
  have ne: "event_history ?f \<noteq> []"
    by (simp add: sample_file_def)
  have all: "\<forall>ev\<in>set (event_history ?f). fst (format_event sample_env ev) = Inr (?row_of ev)"
    by (simp add: sample_file_def read_event_row enoent_event_row)
  have perm: "mset [enoent_event, read_event] = mset (event_history ?f)"
    by (simp add: sample_file_def)
  from rows_follow_events [OF ne all perm] show ?thesis
    by (simp add: sample_file_def read_event_row enoent_event_row)
qed

text \<open>
  C5, as the spec states it, fails: the history read, text timestamp has two events, and
  the table ends with one row, the error row.
\<close>

theorem one_row_per_event_counterexample:
  "length (event_history (sample_file [read_event, text_ts_event])) = 2
   \<and> rows (table (mounted sample_env (sample_file [read_event, text_ts_event])
          (compose sample_env (sample_file [read_event, text_ts_event])))) =
     [[\<lparr>plain = ''Error loading details: Unknown format code 'f' for object of type 'str'' @
                 [CHR 0x27],
        style = ''bold red''\<rparr>]]"
proof -
  let ?f = "sample_file [read_event, text_ts_event]"
  let ?e = "Exn ValueError (''Unknown format code 'f' for object of type 'str'' @ [CHR 0x27])"
  have ok: "list_all2 (\<lambda>ev r. fst (format_event sample_env ev) = Inr r) [read_event]
      [[\<lparr>plain = ''22:13:20.123'', style = []\<rparr>, \<lparr>plain = ''r READ'', style = []\<rparr>,
        \<lparr>plain = ''OK'', style = ''green''\<rparr>, \<lparr>plain = ''fd=3'', style = []\<rparr>]]"
    by (simp add: read_event_row)
  have bad: "fst (format_event sample_env text_ts_event) = Inl ?e"
    by (simp add: text_ts_event_raises)
  have hist: "event_history ?f = [read_event] @ text_ts_event # []"
    by (simp add: sample_file_def)
  from history_with_failure [OF ok bad hist, of "compose sample_env ?f"]
  obtain st' where body: "on_mount_body sample_env ?f (compose sample_env ?f) = (Some ?e, st')"
    by blast
  from on_mount_after_raise(1) [OF body] show ?thesis
    by (simp add: sample_file_def error_row_def Text_def strip_control_codes_def)
qed

subsection \<open>Digits\<close>

lemma is_digit_digit_char: "d < 10 \<Longrightarrow> is_digit (digit_char d)"
  by (simp add: is_digit_def digit_char_def)

lemma is_digit_zero: "is_digit (CHR ''0'')"
  by (simp add: is_digit_def)

lemma digits10_digits: "list_all is_digit (digits10 n)"
proof (induction n rule: digits10.induct)
  case (1 n)
  show ?case
  proof (cases "n < 10")
    case True
    then show ?thesis by (simp add: digits10_small is_digit_digit_char)
  next
    case False
    then have "list_all is_digit (digits10 (n div 10))" using "1.IH" by simp
    moreover have "is_digit (digit_char (n mod 10))" by (simp add: is_digit_digit_char)
    ultimately show ?thesis using False by (simp add: digits10_big)
  qed
qed

lemma digits10_nonempty: "digits10 n \<noteq> []"
  by (cases "n < 10") (simp_all add: digits10_small digits10_big)

lemma length_digits10_le: "0 < k \<Longrightarrow> n < 10 ^ k \<Longrightarrow> length (digits10 n) \<le> k"
proof (induction k arbitrary: n)
  case 0
  then show ?case by simp
next
  case (Suc k)
  show ?case
  proof (cases "n < 10")
    case True
    then show ?thesis by (simp add: digits10_small)
  next
    case False
    then have k: "0 < k" using Suc.prems(2) by (cases k) auto
    have "n div 10 < 10 ^ k" using Suc.prems(2) by (simp add: less_mult_imp_div_less)
    from Suc.IH [OF k this] False show ?thesis by (simp add: digits10_big)
  qed
qed

lemma zero_pad_Suc:
  assumes "0 < k"
  shows "zero_pad (Suc k) n = zero_pad k (n div 10) @ [digit_char (n mod 10)]"
proof (cases "n < 10")
  case True
  have "replicate k (CHR ''0'') = replicate (k - 1) (CHR ''0'') @ [CHR ''0'']"
    using assms by (cases k) (simp_all add: replicate_append_same)
  with True show ?thesis
    by (simp add: zero_pad_def digits10_small digit_char_eval)
next
  case False
  then show ?thesis by (simp add: zero_pad_def digits10_big)
qed

lemma length_zero_pad: "0 < k \<Longrightarrow> n < 10 ^ k \<Longrightarrow> length (zero_pad k n) = k"
  using length_digits10_le [of k n] by (simp add: zero_pad_def)

lemma zero_pad_digits: "list_all is_digit (zero_pad k n)"
  using digits10_digits [of n] by (auto simp: zero_pad_def list_all_iff is_digit_zero)

text \<open>Cutting the last three characters of six microsecond digits leaves the milliseconds,
  rounded down.\<close>

lemma zero_pad_6_cut: "\<exists>a b c. zero_pad 6 n = zero_pad 3 (n div 1000) @ [a, b, c]"
proof -
  have a: "zero_pad (Suc 5) n = zero_pad 5 (n div 10) @ [digit_char (n mod 10)]"
    by (rule zero_pad_Suc) simp
  have b: "zero_pad (Suc 4) (n div 10) =
      zero_pad 4 (n div 10 div 10) @ [digit_char (n div 10 mod 10)]"
    by (rule zero_pad_Suc) simp
  have c: "zero_pad (Suc 3) (n div 10 div 10) =
      zero_pad 3 (n div 10 div 10 div 10) @ [digit_char (n div 10 div 10 mod 10)]"
    by (rule zero_pad_Suc) simp
  have d: "n div 10 div 10 div 10 = n div 1000"
    by (simp add: div_mult2_eq [symmetric])
  have "zero_pad 6 n = zero_pad 3 (n div 1000) @
      [digit_char (n div 10 div 10 mod 10), digit_char (n div 10 mod 10), digit_char (n mod 10)]"
    using a b c d by simp
  then show ?thesis by blast
qed

lemma take_without_last3: "take (length (xs @ [a, b, c]) - 3) (xs @ [a, b, c]) = xs"
  by simp

lemma drop_last3_clock:
  "drop_last3 (strftime_HMSf d) =
     zero_pad 2 (hour d) @ '':'' @ zero_pad 2 (minute d) @ '':'' @ zero_pad 2 (second d) @
     ''.'' @ zero_pad 3 (microsecond d div 1000)"
proof -
  let ?front = "zero_pad 2 (hour d) @ '':'' @ zero_pad 2 (minute d) @ '':'' @
     zero_pad 2 (second d) @ ''.'' @ zero_pad 3 (microsecond d div 1000)"
  obtain a b c where "zero_pad 6 (microsecond d) = zero_pad 3 (microsecond d div 1000) @ [a, b, c]"
    using zero_pad_6_cut by blast
  then have "strftime_HMSf d = ?front @ [a, b, c]"
    by (simp add: strftime_HMSf_def)
  then show ?thesis
    using take_without_last3 [of ?front a b c] by (simp only: drop_last3_def)
qed

lemma clock_text_ok:
  assumes "valid_datetime d"
  shows "clock_text (zero_pad 2 (hour d) @ '':'' @ zero_pad 2 (minute d) @ '':'' @
     zero_pad 2 (second d) @ ''.'' @ zero_pad 3 (microsecond d div 1000))"
proof -
  have h: "length (zero_pad 2 (hour d)) = 2"
    and m: "length (zero_pad 2 (minute d)) = 2"
    and s: "length (zero_pad 2 (second d)) = 2"
    and u: "length (zero_pad 3 (microsecond d div 1000)) = 3"
  proof -
    have "hour d < 10 ^ 2" "minute d < 10 ^ 2" "second d < 10 ^ 2"
      using assms by (simp_all add: valid_datetime_def)
    then show "length (zero_pad 2 (hour d)) = 2" "length (zero_pad 2 (minute d)) = 2"
      "length (zero_pad 2 (second d)) = 2"
      by (simp_all add: length_zero_pad)
    have "microsecond d < 1000 * 1000" using assms by (simp add: valid_datetime_def)
    then have "microsecond d div 1000 < 10 ^ 3" by (simp add: less_mult_imp_div_less)
    then show "length (zero_pad 3 (microsecond d div 1000)) = 3"
      by (simp add: length_zero_pad)
  qed
  show ?thesis
    using h m s u
    by (simp add: clock_text_def nth_append zero_pad_digits)
qed

lemma three_decimals_finite: "three_decimals (float_format_3f (Finite s m e))"
proof -
  let ?q = "digits10 (thousandths m e div 1000)"
  let ?r = "zero_pad 3 (thousandths m e mod 1000)"
  let ?u = "?q @ ''.'' @ ?r"
  have r: "length ?r = 3" by (simp add: length_zero_pad)
  have q: "?q \<noteq> []" by (rule digits10_nonempty)
  have qd: "list_all is_digit ?q" by (rule digits10_digits)
  have u: "5 \<le> length ?u \<and> list_all is_digit (take (length ?u - 4) ?u)
      \<and> ?u ! (length ?u - 4) = CHR ''.'' \<and> list_all is_digit (drop (length ?u - 3) ?u)"
    using r q qd by (cases ?q) (simp_all add: nth_append zero_pad_digits)
  have first: "take 1 ?u \<noteq> ''-''"
  proof -
    obtain c cs where c: "?q = c # cs" using q by (cases ?q) auto
    then have "is_digit c" using qd by simp
    then have "c \<noteq> CHR ''-''" by (auto simp: is_digit_def)
    then show ?thesis using c by simp
  qed
  show ?thesis
  proof (cases s)
    case True
    then show ?thesis using u by (simp add: three_decimals_def)
  next
    case False
    then show ?thesis using u first by (simp add: three_decimals_def)
  qed
qed

lemma three_decimals_number:
  assumes "finite_number v" and "format_3f v = Inr s"
  shows "three_decimals s"
proof (cases v)
  case (PBool b)
  then have "s = float_format_3f (Finite False (if b then 1 else 0) 0)"
    using assms(2) by simp
  then show ?thesis by (simp only: three_decimals_finite)
next
  case (PInt n)
  then obtain f where f: "int_to_float n = Inr f" and s: "s = float_format_3f f"
    using assms(2) by (auto split: sum.splits)
  from f obtain sg m e where "f = Finite sg m e"
    by (auto simp: int_to_float_def Let_def split: if_splits)
  then show ?thesis using s by (simp only: three_decimals_finite)
next
  case (PFloat f)
  then obtain sg m e where "f = Finite sg m e"
    using assms(1) by (cases f) auto
  then have "s = float_format_3f (Finite sg m e)"
    using assms(2) PFloat by simp
  then show ?thesis by (simp only: three_decimals_finite)
qed (use assms in simp_all)

subsection \<open>The timestamp\<close>

lemma strip_digits: "list_all is_digit s \<Longrightarrow> strip_control_codes s = s"
  by (induction s) (auto simp: strip_control_codes_def is_digit_def)

lemma strip_append [simp]:
  "strip_control_codes (xs @ ys) = strip_control_codes xs @ strip_control_codes ys"
  by (simp add: strip_control_codes_def)

lemma strip_marks [simp]:
  "strip_control_codes (CHR '':'' # xs) = CHR '':'' # strip_control_codes xs"
  "strip_control_codes (CHR ''.'' # xs) = CHR ''.'' # strip_control_codes xs"
  "strip_control_codes (CHR ''-'' # xs) = CHR ''-'' # strip_control_codes xs"
  "strip_control_codes [] = []"
  by (simp_all add: strip_control_codes_def)

lemma strip_hms_millis: "strip_control_codes (hms_millis d) = hms_millis d"
  by (simp add: hms_millis_def strip_digits zero_pad_digits)

lemma strip_float_format: "strip_control_codes (float_format_3f f) = float_format_3f f"
proof (cases f)
  case (Finite s m e)
  then show ?thesis by (simp add: strip_digits zero_pad_digits digits10_digits)
next
  case (Infinite s)
  then show ?thesis by (simp add: strip_control_codes_def)
next
  case NaN
  then show ?thesis by (simp add: strip_control_codes_def)
qed

lemma strip_format_3f: "format_3f v = Inr s \<Longrightarrow> strip_control_codes s = s"
  by (cases v) (auto simp: strip_float_format simp del: float_format_3f.simps split: sum.splits)

text \<open>A positive number that converts: the clock text. No warning.\<close>

lemma format_ts_clock:
  assumes "is_int_or_float ts" "py_gt0 ts" "format_3f ts = Inr s" "fromtimestamp env ts = Inr d"
  shows "format_ts env ts = (Inr (hms_millis d), [])"
  using assms by (simp add: format_ts_def drop_last3_clock hms_millis_def)

text \<open>A number that is not positive: the fallback text. No warning.\<close>

lemma format_ts_fallback:
  assumes "\<not> py_gt0 ts" "format_3f ts = Inr s"
  shows "format_ts env ts = (Inr s, [])"
  using assms by (simp add: format_ts_def)

text \<open>A positive number whose conversion raises what the handler catches: the fallback
  text and one warning.\<close>

lemma format_ts_caught:
  assumes "is_int_or_float ts" "py_gt0 ts" "format_3f ts = Inr s"
    "fromtimestamp env ts = Inl e" "caught_by_ts_handler e"
  shows "format_ts env ts = (Inr s, [Bad_timestamp ts e])"
  using assms by (simp add: format_ts_def)

lemma format_ts_text_clean:
  assumes "format_ts env ts = (Inr ts_str, lg)"
  shows "strip_control_codes ts_str = ts_str"
proof (cases "format_3f ts")
  case (Inl e)
  with assms show ?thesis by (simp add: format_ts_def)
next
  case (Inr s)
  note s = this
  show ?thesis
  proof (cases "is_int_or_float ts \<and> py_gt0 ts")
    case False
    with s assms have "ts_str = s" by (auto simp: format_ts_def)
    with s show ?thesis by (simp add: strip_format_3f)
  next
    case True
    show ?thesis
    proof (cases "fromtimestamp env ts")
      case (Inl e)
      with True s assms have "ts_str = s" by (auto simp: format_ts_def split: if_splits)
      with s show ?thesis by (simp add: strip_format_3f)
    next
      case (Inr d)
      with True s have "format_ts env ts = (Inr (hms_millis d), [])"
        by (simp add: format_ts_clock)
      with assms have "ts_str = hms_millis d" by simp
      then show ?thesis by (simp only: strip_hms_millis)
    qed
  qed
qed

lemma absent_ts: "ev_ts ev = None \<Longrightarrow> format_ts env (get_ts ev) = (Inr ''0.000'', [])"
  by (simp add: get_ts_def format_ts_def number_eval)

text \<open>
  C6. The timestamp text is the first cell of the row; \<open>format_ts\<close> computes it.
  \<^item> For a \<^verbatim>\<open>ts\<close> that is an int or float and positive, whose three-decimal rendering exists
    (it does for every float and bool and for every int below \<open>2^1024\<close>) and which
    \<^verbatim>\<open>fromtimestamp\<close> converts to a time of day \<open>d\<close>, the text is \<open>hms_millis d\<close>: two digits
    each for hour, minute and second and three for the milliseconds, which are the
    microseconds of \<open>d\<close> divided by 1000 and rounded down. It has the shape
    \<^verbatim>\<open>HH:MM:SS.mmm\<close>, and no warning is logged.
  \<^item> For a \<^verbatim>\<open>ts\<close> that is an int or float and not positive, the text is its rendering by
    \<^verbatim>\<open>:.3f\<close>; for a finite number that is a number with exactly three decimal places.
  \<^item> For an absent \<^verbatim>\<open>ts\<close> the text is \<^verbatim>\<open>0.000\<close>.
  \<^item> Whenever the event gives a row, its first cell holds that text unchanged.
\<close>

theorem timestamp_text_forms:
  "(is_int_or_float ts \<and> py_gt0 ts \<and> format_3f ts = Inr s \<and> fromtimestamp env ts = Inr d
      \<and> valid_datetime d \<longrightarrow>
        format_ts env ts = (Inr (hms_millis d), []) \<and> clock_text (hms_millis d))
   \<and> (is_int_or_float ts \<and> \<not> py_gt0 ts \<and> format_3f ts = Inr s \<longrightarrow>
        format_ts env ts = (Inr s, []) \<and> (finite_number ts \<longrightarrow> three_decimals s))
   \<and> (ev_ts ev = None \<longrightarrow> format_ts env (get_ts ev) = (Inr ''0.000'', []))
   \<and> (format_event env ev = (Inr row, lg) \<longrightarrow>
        (\<exists>ts_str. format_ts env (get_ts ev) = (Inr ts_str, lg)
                  \<and> row ! 0 = \<lparr>plain = ts_str, style = []\<rparr>))"
proof (intro conjI impI)
  assume a: "is_int_or_float ts \<and> py_gt0 ts \<and> format_3f ts = Inr s
      \<and> fromtimestamp env ts = Inr d \<and> valid_datetime d"
  then show "format_ts env ts = (Inr (hms_millis d), [])"
    by (simp add: format_ts_clock)
  from a show "clock_text (hms_millis d)"
    using clock_text_ok [of d] by (simp add: hms_millis_def)
next
  assume b: "is_int_or_float ts \<and> \<not> py_gt0 ts \<and> format_3f ts = Inr s"
  then show "format_ts env ts = (Inr s, [])"
    by (simp add: format_ts_fallback)
  assume "finite_number ts"
  with b show "three_decimals s"
    by (simp add: three_decimals_number)
next
  assume "ev_ts ev = None"
  then show "format_ts env (get_ts ev) = (Inr ''0.000'', [])"
    by (rule absent_ts)
next
  assume "format_event env ev = (Inr row, lg)"
  from format_event_row [OF this] obtain ts_str where
    ts: "format_ts env (get_ts ev) = (Inr ts_str, lg)" and "row ! 0 = Text ts_str []"
    by auto
  moreover have "Text ts_str [] = \<lparr>plain = ts_str, style = []\<rparr>"
    using format_ts_text_clean [OF ts] by (simp add: Text_def)
  ultimately show "\<exists>ts_str. format_ts env (get_ts ev) = (Inr ts_str, lg)
      \<and> row ! 0 = \<lparr>plain = ts_str, style = []\<rparr>"
    by auto
qed

lemma minus_five_rendering: "format_3f (PInt (- 5)) = Inr ''-5.000''"
  by (simp add: number_eval)

lemma read_event_clock:
  "format_3f (PFloat (Finite False 7130316800515899 (- 22))) = Inr ''1700000000.123''"
  "fromtimestamp sample_env (PFloat (Finite False 7130316800515899 (- 22))) =
     Inr \<lparr>hour = 22, minute = 13, second = 20, microsecond = 123000\<rparr>"
  "hms_millis \<lparr>hour = 22, minute = 13, second = 20, microsecond = 123000\<rparr> = ''22:13:20.123''"
  by (simp_all add: number_eval clock_eval hms_millis_def)

theorem timestamp_text_forms_witness:
  "format_ts sample_env (PFloat (Finite False 7130316800515899 (- 22))) =
     (Inr ''22:13:20.123'', [])
   \<and> clock_text ''22:13:20.123''
   \<and> format_ts sample_env (PInt (- 5)) = (Inr ''-5.000'', [])
   \<and> three_decimals ''-5.000''
   \<and> format_ts sample_env (get_ts enoent_event) = (Inr ''0.000'', [])
   \<and> (\<exists>ts_str. format_ts sample_env (get_ts read_event) = (Inr ts_str, [])
         \<and> [\<lparr>plain = ''22:13:20.123'', style = []\<rparr>, \<lparr>plain = ''r READ'', style = []\<rparr>,
             \<lparr>plain = ''OK'', style = ''green''\<rparr>, \<lparr>plain = ''fd=3'', style = []\<rparr>] ! 0 =
            \<lparr>plain = ts_str, style = []\<rparr>)"
proof -
  let ?ts = "PFloat (Finite False 7130316800515899 (- 22))"
  let ?d = "\<lparr>hour = 22, minute = 13, second = 20, microsecond = 123000\<rparr>"
  have pos: "is_int_or_float ?ts" "py_gt0 ?ts"
    by simp_all
  have valid: "valid_datetime ?d"
    by (simp add: valid_datetime_def)
  have neg: "is_int_or_float (PInt (- 5))" "\<not> py_gt0 (PInt (- 5))" "finite_number (PInt (- 5))"
    by simp_all
  have absent: "ev_ts enoent_event = None"
    by (simp add: enoent_event_def)
  have a: "format_ts sample_env ?ts = (Inr (hms_millis ?d), []) \<and> clock_text (hms_millis ?d)"
    using timestamp_text_forms [of ?ts "''1700000000.123''" sample_env ?d]
      pos valid read_event_clock(1) read_event_clock(2)
    by blast
  have b: "format_ts sample_env (PInt (- 5)) = (Inr ''-5.000'', []) \<and> three_decimals ''-5.000''"
    using timestamp_text_forms [of "PInt (- 5)" "''-5.000''" sample_env] neg minus_five_rendering
    by blast
  have c: "format_ts sample_env (get_ts enoent_event) = (Inr ''0.000'', [])"
    using timestamp_text_forms [of _ _ sample_env _ enoent_event] absent
    by blast
  have d: "\<exists>ts_str. format_ts sample_env (get_ts read_event) = (Inr ts_str, [])
      \<and> [\<lparr>plain = ''22:13:20.123'', style = []\<rparr>, \<lparr>plain = ''r READ'', style = []\<rparr>,
          \<lparr>plain = ''OK'', style = ''green''\<rparr>, \<lparr>plain = ''fd=3'', style = []\<rparr>] ! 0 =
         \<lparr>plain = ts_str, style = []\<rparr>"
    using timestamp_text_forms [of _ _ sample_env _ read_event] read_event_row
    by blast
  show ?thesis
    using a b c d unfolding read_event_clock(3) by blast
qed

subsection \<open>A timestamp that cannot be converted\<close>

text \<open>
  What the handler of lines 102 and 103 recovers. For a \<^verbatim>\<open>ts\<close> that is a positive int or
  float with a three-decimal rendering \<open>s\<close>, and for which \<^verbatim>\<open>fromtimestamp\<close> raises an
  exception \<open>e\<close> that is a \<^verbatim>\<open>TypeError\<close>, a \<^verbatim>\<open>ValueError\<close> or an \<^verbatim>\<open>OSError\<close>, the text is the
  fallback \<open>s\<close>, exactly one message is logged, at warning level, and the row is built.
\<close>

lemma caught_timestamp_recovered:
  assumes "is_int_or_float ts" and "py_gt0 ts" and "format_3f ts = Inr s"
      and "fromtimestamp env ts = Inl e" and "caught_by_ts_handler e"
  shows "format_ts env ts = (Inr s, [Bad_timestamp ts e])
       \<and> level (Bad_timestamp ts e) = WARNING
       \<and> (finite_number ts \<longrightarrow> three_decimals s)
       \<and> (\<forall>ev ds. get_ts ev = ts
             \<and> format_details env (get_details ev) (get_success ev) = Inr ds \<longrightarrow>
             (\<exists>row. format_event env ev = (Inr row, [Bad_timestamp ts e])
                    \<and> row ! 0 = \<lparr>plain = s, style = []\<rparr>))"
proof -
  have ts: "format_ts env ts = (Inr s, [Bad_timestamp ts e])"
    using assms by (rule format_ts_caught)
  have clean: "Text s [] = \<lparr>plain = s, style = []\<rparr>"
    using format_ts_text_clean [OF ts] by (simp add: Text_def)
  have row: "\<exists>row. format_event env ev = (Inr row, [Bad_timestamp ts e])
      \<and> row ! 0 = \<lparr>plain = s, style = []\<rparr>"
    if "get_ts ev = ts" "format_details env (get_details ev) (get_success ev) = Inr ds"
    for ev ds
  proof -
    have "format_ts env (get_ts ev) = (Inr s, [Bad_timestamp ts e])"
      using ts that(1) by simp
    from format_event_ok [OF this that(2)] clean show ?thesis by simp
  qed
  show ?thesis
    using ts row assms(3) by (auto simp: three_decimals_number)
qed

text \<open>A \<^verbatim>\<open>ts\<close> that is no number has no rendering by \<^verbatim>\<open>:.3f\<close>.\<close>

lemma format_3f_no_number: "\<not> is_int_or_float v \<Longrightarrow> \<exists>e. format_3f v = Inl e"
  by (cases v) simp_all

text \<open>The two ways in which an exception leaves the timestamp block.\<close>

lemma format_ts_raises:
  assumes "format_3f ts = Inl e
         \<or> (\<exists>s. format_3f ts = Inr s) \<and> is_int_or_float ts \<and> py_gt0 ts
           \<and> fromtimestamp env ts = Inl e \<and> \<not> caught_by_ts_handler e"
  shows "format_ts env ts = (Inl e, [])"
  using assms by (auto simp: format_ts_def)

text \<open>A history of one event that raises: what is logged.\<close>

lemma single_event_failure:
  assumes hist: "event_history fi = [ev]"
      and bad: "format_event env ev = (Inl e, lg)"
  shows "rows (table (mounted env fi st)) = [error_row e]"
    and "logged (mounted env fi st) =
           logged st @ Populating 1 (path fi) # lg @ [Populating_failed (path fi) e]"
proof -
  have ne: "event_history fi \<noteq> []" using hist by simp
  from on_mount_body_nonempty [OF ne, of st env] obtain st0 where
    l0: "logged st0 = logged st @ [Populating (length (event_history fi)) (path fi)]" and
    body: "on_mount_body env fi st =
      (case add_event_rows env (event_history fi) st0 of
         (Some e, st4) \<Rightarrow> (Some e, st4)
       | (None, st4) \<Rightarrow> (None, focus st4))"
    by blast
  have loop: "add_event_rows env [ev] st0 = (Some e, log_add lg st0)"
    using bad by simp
  have raised: "on_mount_body env fi st = (Some e, log_add lg st0)"
    using body hist loop by simp
  from on_mount_after_raise(1) [OF raised]
  show "rows (table (mounted env fi st)) = [error_row e]" .
  from on_mount_after_raise(3) [OF raised] l0 hist
  show "logged (mounted env fi st) =
      logged st @ Populating 1 (path fi) # lg @ [Populating_failed (path fi) e]"
    by simp
qed

text \<open>
  C3. The code recovers a timestamp locally only in part (see \<open>caught_timestamp_recovered\<close>);
  two kinds of \<^verbatim>\<open>ts\<close> that cannot be converted are not recovered.
  \<^item> A \<^verbatim>\<open>ts\<close> that is no number (text, \<^verbatim>\<open>None\<close>, bytes) has no rendering by \<^verbatim>\<open>:.3f\<close>, and the
    fallback \<^verbatim>\<open>f"{ts_raw:.3f}"\<close> of line 96 stands before the \<^verbatim>\<open>try\<close>: its exception \<open>e\<close> is
    not caught. The same holds for an int from \<open>2^1024\<close> on.
  \<^item> For a positive int or float for which \<^verbatim>\<open>fromtimestamp\<close> raises an exception \<open>e\<close> that is
    none of \<^verbatim>\<open>TypeError\<close>, \<^verbatim>\<open>ValueError\<close>, \<^verbatim>\<open>OSError\<close> (it raises \<^verbatim>\<open>OverflowError\<close> for a
    value out of the range of the platform), the handler of line 102 does not catch \<open>e\<close>.

  In both cases \<open>e\<close> leaves the timestamp block: no fallback text is substituted and no
  warning is logged; the construction of the row is aborted, the event gives no row. In a
  history that holds such an event the table ends with a single error row and none of the
  events has a row; for a history of this event alone the error row carries the message of
  \<open>e\<close>, and the log holds the debug line and the error, and no warning.
\<close>

theorem timestamp_error_not_recovered:
  "(\<not> is_int_or_float (get_ts ev) \<longrightarrow> (\<exists>e. format_3f (get_ts ev) = Inl e))
   \<and> (format_3f (get_ts ev) = Inl e
        \<or> (\<exists>s. format_3f (get_ts ev) = Inr s) \<and> is_int_or_float (get_ts ev)
          \<and> py_gt0 (get_ts ev) \<and> fromtimestamp env (get_ts ev) = Inl e
          \<and> \<not> caught_by_ts_handler e
      \<longrightarrow>
        format_ts env (get_ts ev) = (Inl e, [])
      \<and> format_event env ev = (Inl e, [])
      \<and> (ev \<in> set (event_history fi) \<longrightarrow>
           (\<exists>e1. rows (table (mounted env fi st)) =
                    [[Text (''Error loading details: '' @ exn_str e1) ''bold red'']]))
      \<and> (event_history fi = [ev] \<longrightarrow>
           rows (table (mounted env fi st)) =
             [[Text (''Error loading details: '' @ exn_str e) ''bold red'']]
         \<and> logged (mounted env fi st) =
             logged st @ [Populating 1 (path fi), Populating_failed (path fi) e]))"
proof (intro conjI impI)
  assume "\<not> is_int_or_float (get_ts ev)"
  then show "\<exists>e. format_3f (get_ts ev) = Inl e" by (rule format_3f_no_number)
next
  assume "format_3f (get_ts ev) = Inl e
        \<or> (\<exists>s. format_3f (get_ts ev) = Inr s) \<and> is_int_or_float (get_ts ev)
          \<and> py_gt0 (get_ts ev) \<and> fromtimestamp env (get_ts ev) = Inl e
          \<and> \<not> caught_by_ts_handler e"
  then show ts: "format_ts env (get_ts ev) = (Inl e, [])" by (rule format_ts_raises)
  then show ev: "format_event env ev = (Inl e, [])" by (rule format_event_ts_raises)
  {
    assume mem: "ev \<in> set (event_history fi)"
    have "fst (format_event env ev) = Inl e" using ev by simp
    from first_failure [OF mem this] obtain evs1 ev1 evs2 e1 rs where
      hist: "event_history fi = evs1 @ ev1 # evs2" and
      ok: "list_all2 (\<lambda>ev r. fst (format_event env ev) = Inr r) evs1 rs" and
      bad: "fst (format_event env ev1) = Inl e1"
      by blast
    from history_with_failure [OF ok bad hist, of st]
    obtain st' where body: "on_mount_body env fi st = (Some e1, st')" by blast
    from on_mount_after_raise(1) [OF body]
    show "\<exists>e1. rows (table (mounted env fi st)) =
        [[Text (''Error loading details: '' @ exn_str e1) ''bold red'']]"
      by (auto simp: error_row_def)
  }
  {
    assume hist: "event_history fi = [ev]"
    from single_event_failure [OF hist ev, of st]
    show "rows (table (mounted env fi st)) =
        [[Text (''Error loading details: '' @ exn_str e) ''bold red'']]"
      and "logged (mounted env fi st) =
        logged st @ [Populating 1 (path fi), Populating_failed (path fi) e]"
      by (simp_all add: error_row_def)
  }
qed

theorem timestamp_error_not_recovered_witness:
  "\<not> is_int_or_float (get_ts text_ts_event)
   \<and> format_3f (get_ts text_ts_event) =
       Inl (Exn ValueError (''Unknown format code 'f' for object of type 'str'' @ [CHR 0x27]))
   \<and> format_event sample_env text_ts_event =
       (Inl (Exn ValueError (''Unknown format code 'f' for object of type 'str'' @ [CHR 0x27])), [])
   \<and> rows (table (mounted sample_env (sample_file [text_ts_event])
          (compose sample_env (sample_file [text_ts_event])))) =
       [[\<lparr>plain = ''Error loading details: Unknown format code 'f' for object of type 'str'' @
                   [CHR 0x27],
          style = ''bold red''\<rparr>]]
   \<and> is_int_or_float (get_ts inf_ts_event) \<and> py_gt0 (get_ts inf_ts_event)
   \<and> format_3f (get_ts inf_ts_event) = Inr ''inf''
   \<and> fromtimestamp sample_env (get_ts inf_ts_event) =
       Inl (Exn OverflowError ''timestamp out of range for platform time_t'')
   \<and> \<not> caught_by_ts_handler (Exn OverflowError ''timestamp out of range for platform time_t'')
   \<and> format_event sample_env inf_ts_event =
       (Inl (Exn OverflowError ''timestamp out of range for platform time_t''), [])
   \<and> inf_ts_event \<in> set (event_history (sample_file [late_event, inf_ts_event]))
   \<and> (\<exists>e1. rows (table (mounted sample_env (sample_file [late_event, inf_ts_event])
          (compose sample_env (sample_file [late_event, inf_ts_event])))) =
        [[Text (''Error loading details: '' @ exn_str e1) ''bold red'']])
   \<and> rows (table (mounted sample_env (sample_file [inf_ts_event])
          (compose sample_env (sample_file [inf_ts_event])))) =
       [[\<lparr>plain = ''Error loading details: timestamp out of range for platform time_t'',
          style = ''bold red''\<rparr>]]
   \<and> logged (mounted sample_env (sample_file [inf_ts_event])
          (compose sample_env (sample_file [inf_ts_event]))) =
       [Populating 1 ''/tmp/x'',
        Populating_failed ''/tmp/x''
          (Exn OverflowError ''timestamp out of range for platform time_t'')]"
proof -
  let ?v = "Exn ValueError (''Unknown format code 'f' for object of type 'str'' @ [CHR 0x27])"
  let ?o = "Exn OverflowError ''timestamp out of range for platform time_t''"
  have t1: "\<not> is_int_or_float (get_ts text_ts_event)"
    and t2: "format_3f (get_ts text_ts_event) = Inl ?v"
    by (simp_all add: get_ts_def text_ts_event_def)
  have i1: "is_int_or_float (get_ts inf_ts_event)" "py_gt0 (get_ts inf_ts_event)"
    and i2: "format_3f (get_ts inf_ts_event) = Inr ''inf''"
    and i3: "fromtimestamp sample_env (get_ts inf_ts_event) = Inl ?o"
    and i4: "\<not> caught_by_ts_handler ?o"
    by (simp_all add: get_ts_def inf_ts_event_def sample_env_def utc_fromtimestamp_def
        caught_by_ts_handler_def)
  have h1: "event_history (sample_file [text_ts_event]) = [text_ts_event]"
    and h2: "event_history (sample_file [inf_ts_event]) = [inf_ts_event]"
    and h3: "inf_ts_event \<in> set (event_history (sample_file [late_event, inf_ts_event]))"
    and p: "\<And>evs. path (sample_file evs) = ''/tmp/x''"
    by (simp_all add: sample_file_def)
  from timestamp_error_not_recovered
    [of text_ts_event ?v sample_env "sample_file [text_ts_event]"
      "compose sample_env (sample_file [text_ts_event])"] t2 h1
  have a: "format_event sample_env text_ts_event = (Inl ?v, [])"
    "rows (table (mounted sample_env (sample_file [text_ts_event])
        (compose sample_env (sample_file [text_ts_event])))) =
      [[Text (''Error loading details: '' @ exn_str ?v) ''bold red'']]"
    by blast+
  from timestamp_error_not_recovered
    [of inf_ts_event ?o sample_env "sample_file [late_event, inf_ts_event]"
      "compose sample_env (sample_file [late_event, inf_ts_event])"] i1 i2 i3 i4 h3
  have b: "\<exists>e1. rows (table (mounted sample_env (sample_file [late_event, inf_ts_event])
        (compose sample_env (sample_file [late_event, inf_ts_event])))) =
      [[Text (''Error loading details: '' @ exn_str e1) ''bold red'']]"
    by blast
  from timestamp_error_not_recovered
    [of inf_ts_event ?o sample_env "sample_file [inf_ts_event]"
      "compose sample_env (sample_file [inf_ts_event])"] i1 i2 i3 i4 h2
  have c: "format_event sample_env inf_ts_event = (Inl ?o, [])"
    "rows (table (mounted sample_env (sample_file [inf_ts_event])
        (compose sample_env (sample_file [inf_ts_event])))) =
      [[Text (''Error loading details: '' @ exn_str ?o) ''bold red'']]"
    "logged (mounted sample_env (sample_file [inf_ts_event])
        (compose sample_env (sample_file [inf_ts_event]))) =
      logged (compose sample_env (sample_file [inf_ts_event])) @
        [Populating 1 (path (sample_file [inf_ts_event])),
         Populating_failed (path (sample_file [inf_ts_event])) ?o]"
    by blast+
  have a': "rows (table (mounted sample_env (sample_file [text_ts_event])
        (compose sample_env (sample_file [text_ts_event])))) =
      [[\<lparr>plain = ''Error loading details: Unknown format code 'f' for object of type 'str'' @
                  [CHR 0x27],
         style = ''bold red''\<rparr>]]"
    using a(2) by (simp add: Text_def strip_control_codes_def)
  have c': "rows (table (mounted sample_env (sample_file [inf_ts_event])
        (compose sample_env (sample_file [inf_ts_event])))) =
      [[\<lparr>plain = ''Error loading details: timestamp out of range for platform time_t'',
         style = ''bold red''\<rparr>]]"
    using c(2) by (simp add: Text_def strip_control_codes_def)
  have c'': "logged (mounted sample_env (sample_file [inf_ts_event])
        (compose sample_env (sample_file [inf_ts_event]))) =
      [Populating 1 ''/tmp/x'', Populating_failed ''/tmp/x'' ?o]"
    using c(3) by (simp add: p)
  show ?thesis
    using t1 t2 a(1) a' i1 i2 i3 i4 c(1) h3 b c' c'' by simp
qed

subsection \<open>Joined text and its parts\<close>

lemma sublist_join: "p \<in> set ps \<Longrightarrow> sublist p (join sep ps)"
proof (induction sep ps rule: join.induct)
  case (1 sep)
  then show ?case by simp
next
  case (2 sep x)
  then show ?case by simp
next
  case (3 sep x y ys)
  show ?case
  proof (cases "p = x")
    case True
    then show ?thesis by (simp add: sublist_append_rightI)
  next
    case False
    with 3 have "sublist p (join sep (y # ys))" by simp
    then obtain as bs where "join sep (y # ys) = as @ p @ bs"
      by (auto simp: sublist_def)
    then have "join sep (x # y # ys) = (x @ sep @ as) @ p @ bs" by simp
    then show ?thesis unfolding sublist_def by blast
  qed
qed

lemma sublist_strip:
  assumes "sublist x s" and "strip_control_codes x = x"
  shows "sublist x (strip_control_codes s)"
proof -
  from assms(1) obtain ps ss where "s = ps @ x @ ss" by (auto simp: sublist_def)
  then have "strip_control_codes s = strip_control_codes ps @ x @ strip_control_codes ss"
    using assms(2) by simp
  then show ?thesis unfolding sublist_def by blast
qed

subsection \<open>Assignments to a dictionary\<close>

lemma dict_set_has: "(k, v) \<in> set (dict_set d k v)"
proof (cases "k \<in> fst ` set d")
  case False
  then show ?thesis by (simp add: dict_set_def)
next
  case True
  then have "(k, v) \<in> set (map (\<lambda>(k', v'). if k' = k then (k', v) else (k', v')) d)"
    by (induction d) auto
  with True show ?thesis by (simp add: dict_set_def)
qed

lemma dict_set_keeps:
  assumes "(k', x) \<in> set d" and "k' \<noteq> k"
  shows "(k', x) \<in> set (dict_set d k v)"
proof -
  have "(k', x) \<in> set (map (\<lambda>(k', v'). if k' = k then (k', v) else (k', v')) d)"
    using assms by (induction d) auto
  with assms show ?thesis by (simp add: dict_set_def)
qed

lemma dict_set_from:
  assumes "(k', x) \<in> set (dict_set d k v)"
  shows "(k', x) \<in> set d \<or> (k' = k \<and> x = v)"
proof -
  have "(k', x) \<in> set (map (\<lambda>(k', v'). if k' = k then (k', v) else (k', v')) d) \<Longrightarrow>
      (k', x) \<in> set d \<or> (k' = k \<and> x = v)"
    by (induction d) (auto split: if_splits)
  with assms show ?thesis by (auto simp: dict_set_def split: if_splits)
qed

lemma dict_set_keys: "fst ` set (dict_set d k v) = insert k (fst ` set d)"
proof -
  have "fst ` set (map (\<lambda>(k', v'). if k' = k then (k', v) else (k', v')) d) = fst ` set d"
    by (induction d) auto
  then show ?thesis by (auto simp: dict_set_def)
qed

subsection \<open>The filtered details\<close>

text \<open>One step of the first loop, by the kind of the entry.\<close>

lemma filter_details_excluded:
  "k \<in> set excluded_keys \<Longrightarrow> filter_details ((k, v) # rest) acc = filter_details rest acc"
  by simp

lemma filter_details_bytes:
  "k \<notin> set excluded_keys \<Longrightarrow> \<exists>e. filter_details ((k, PBytes b) # rest) acc = Inl e"
  by (simp add: fsdecode_surrogateescape_def)

lemma filter_details_kept:
  "k \<notin> set excluded_keys \<Longrightarrow> \<forall>b. v \<noteq> PBytes b \<Longrightarrow>
   filter_details ((k, v) # rest) acc = filter_details rest (dict_set acc k (Plain v))"
  by (cases v) simp_all

text \<open>Induction over a run of the first loop that does not raise.\<close>

lemma filter_details_Inr_induct [consumes 1, case_names Nil Excluded Kept]:
  assumes run: "filter_details d acc = Inr fd"
    and nil: "\<And>acc. P [] acc acc"
    and excluded: "\<And>k v rest acc fd. k \<in> set excluded_keys \<Longrightarrow>
        filter_details rest acc = Inr fd \<Longrightarrow> P rest acc fd \<Longrightarrow> P ((k, v) # rest) acc fd"
    and kept: "\<And>k v rest acc fd. k \<notin> set excluded_keys \<Longrightarrow> \<forall>b. v \<noteq> PBytes b \<Longrightarrow>
        filter_details rest (dict_set acc k (Plain v)) = Inr fd \<Longrightarrow>
        P rest (dict_set acc k (Plain v)) fd \<Longrightarrow> P ((k, v) # rest) acc fd"
  shows "P d acc fd"
  using run
proof (induction d arbitrary: acc)
  case Nil
  then show ?case using nil by simp
next
  case (Cons p rest)
  obtain k v where p: "p = (k, v)" by (cases p)
  show ?case
  proof (cases "k \<in> set excluded_keys")
    case True
    then have "filter_details rest acc = Inr fd"
      using Cons.prems p by simp
    with True Cons.IH p excluded show ?thesis by blast
  next
    case False
    have nb: "\<forall>b. v \<noteq> PBytes b"
    proof (intro allI notI)
      fix b assume "v = PBytes b"
      with filter_details_bytes [OF False, of b rest acc] Cons.prems p show False by auto
    qed
    then have "filter_details rest (dict_set acc k (Plain v)) = Inr fd"
      using Cons.prems p filter_details_kept [OF False, of v rest acc] by simp
    with False nb Cons.IH p kept show ?thesis by blast
  qed
qed

lemma filter_details_keys:
  "filter_details d acc = Inr fd \<Longrightarrow>
   fst ` set fd = fst ` set acc \<union> {k \<in> fst ` set d. k \<notin> set excluded_keys}"
  by (induction rule: filter_details_Inr_induct) (auto simp: dict_set_keys)

lemma filter_details_rich:
  "filter_details d acc = Inr fd \<Longrightarrow> (k, Rich t) \<in> set fd \<Longrightarrow> (k, Rich t) \<in> set acc"
  by (induction rule: filter_details_Inr_induct) (auto dest: dict_set_from)

lemma filter_details_preserves:
  "filter_details d acc = Inr fd \<Longrightarrow> (k, x) \<in> set acc \<Longrightarrow> k \<notin> fst ` set d \<Longrightarrow>
   (k, x) \<in> set fd"
  by (induction rule: filter_details_Inr_induct) (auto simp: dict_set_keeps)

text \<open>A value that is not excluded is kept as it is; it cannot be a byte sequence, for
  then the decoding call would have raised.\<close>

lemma filter_details_entry:
  "filter_details d acc = Inr fd \<Longrightarrow> distinct (map fst d) \<Longrightarrow> (k, v) \<in> set d \<Longrightarrow>
   k \<notin> set excluded_keys \<Longrightarrow> (k, Plain v) \<in> set fd \<and> (\<forall>b. v \<noteq> PBytes b)"
proof (induction rule: filter_details_Inr_induct)
  case (Nil acc)
  then show ?case by simp
next
  case (Excluded k' v' rest acc fd)
  then show ?case by auto
next
  case (Kept k' v' rest acc fd)
  show ?case
  proof (cases "(k, v) = (k', v')")
    case True
    have "k' \<notin> fst ` set rest" using Kept.prems(1) by auto
    with filter_details_preserves [OF Kept.hyps(3) dict_set_has] True Kept.hyps(2)
    show ?thesis by auto
  next
    case False
    with Kept show ?thesis by auto
  qed
qed

text \<open>The second loop never adds an entry: a byte sequence under a path key makes the
  decoding call raise, and any other value is passed over.\<close>

lemma decode_path_details_Inr:
  "decode_path_details d ks acc = Inr fd \<Longrightarrow>
   fd = acc \<and> (\<forall>k\<in>set ks. \<forall>b. map_of d k \<noteq> Some (PBytes b))"
proof (induction ks arbitrary: acc)
  case Nil
  then show ?case by simp
next
  case (Cons k ks)
  show ?case
  proof (cases "\<exists>b. map_of d k = Some (PBytes b)")
    case True
    with Cons.prems show ?thesis
      by (auto simp: fsdecode_surrogateescape_def)
  next
    case False
    then have "decode_path_details d (k # ks) acc = decode_path_details d ks acc"
      by (auto split: option.splits pyval.splits)
    with Cons False show ?thesis by auto
  qed
qed

lemma decode_path_details_Inl:
  "decode_path_details d ks acc = Inl e \<Longrightarrow> e = fsdecode_arity_error"
proof (induction ks arbitrary: acc)
  case Nil
  then show ?case by simp
next
  case (Cons k ks)
  show ?case
  proof (cases "\<exists>b. map_of d k = Some (PBytes b)")
    case True
    with Cons.prems show ?thesis
      by (auto simp: fsdecode_surrogateescape_def)
  next
    case False
    then have "decode_path_details d (k # ks) acc = decode_path_details d ks acc"
      by (auto split: option.splits pyval.splits)
    with Cons show ?thesis by auto
  qed
qed

lemma filter_details_Inl: "filter_details d acc = Inl e \<Longrightarrow> e = fsdecode_arity_error"
proof (induction d arbitrary: acc)
  case Nil
  then show ?case by simp
next
  case (Cons p rest)
  obtain k v where p: "p = (k, v)" by (cases p)
  show ?case
  proof (cases "k \<in> set excluded_keys")
    case True
    with Cons p show ?thesis by auto
  next
    case False
    show ?thesis
    proof (cases "\<exists>b. v = PBytes b")
      case True
      with Cons.prems p False show ?thesis
        by (auto simp: fsdecode_surrogateescape_def)
    next
      case nb: False
      then have "filter_details (p # rest) acc = filter_details rest (dict_set acc k (Plain v))"
        using p filter_details_kept [OF False, of v rest acc] by simp
      with Cons show ?thesis by auto
    qed
  qed
qed

text \<open>The third step: the \<^verbatim>\<open>ERROR\<close> entry.\<close>

lemma add_error_entry_Inr:
  assumes "add_error_entry d success acc = Inr fd"
  shows "if truthy (get_error_name d) \<and> \<not> truthy success
         then \<exists>s. get_error_name d = PStr s \<and> fd = dict_set acc ''ERROR'' (Rich (Text s ''red''))
         else fd = acc"
proof (cases "truthy (get_error_name d) \<and> \<not> truthy success")
  case False
  with assms show ?thesis by (auto simp: add_error_entry_def)
next
  case True
  with assms obtain t where t: "Text_of (get_error_name d) ''red'' = Inr t"
    and fd: "fd = dict_set acc ''ERROR'' (Rich t)"
    by (auto simp: add_error_entry_def split: sum.splits)
  from t obtain s where "get_error_name d = PStr s" "t = Text s ''red''"
    by (cases "get_error_name d") auto
  with fd True show ?thesis by simp
qed

text \<open>The three steps together.\<close>

lemma filtered_details_Inr:
  assumes "filtered_details d success = Inr fd"
  shows "\<exists>acc. filter_details d [] = Inr acc
           \<and> (\<forall>k\<in>set path_keys. \<forall>b. map_of d k \<noteq> Some (PBytes b))
           \<and> add_error_entry d success acc = Inr fd"
proof -
  from assms obtain acc1 acc2 where a1: "filter_details d [] = Inr acc1"
    and a2: "decode_path_details d path_keys acc1 = Inr acc2"
    and a3: "add_error_entry d success acc2 = Inr fd"
    by (auto simp: filtered_details_def split: sum.splits)
  from decode_path_details_Inr [OF a2] a1 a3 show ?thesis by auto
qed

lemma filtered_details_error_entry:
  assumes "filtered_details d success = Inr fd"
  shows "(\<exists>t. (''ERROR'', Rich t) \<in> set fd) \<longleftrightarrow>
           (truthy (get_error_name d) \<and> \<not> truthy success)"
proof -
  from filtered_details_Inr [OF assms] obtain acc where a1: "filter_details d [] = Inr acc"
    and a3: "add_error_entry d success acc = Inr fd"
    by blast
  have plain_only: "\<And>k t. (k, Rich t) \<notin> set acc"
    using filter_details_rich [OF a1] by auto
  show ?thesis
  proof (cases "truthy (get_error_name d) \<and> \<not> truthy success")
    case True
    with add_error_entry_Inr [OF a3] obtain s where
      "fd = dict_set acc ''ERROR'' (Rich (Text s ''red''))" by auto
    then have "(''ERROR'', Rich (Text s ''red'')) \<in> set fd"
      by (simp add: dict_set_has)
    with True show ?thesis by blast
  next
    case False
    with add_error_entry_Inr [OF a3] have "fd = acc" by auto
    with False plain_only show ?thesis by auto
  qed
qed

lemma filtered_details_keys:
  assumes "filtered_details d success = Inr fd"
  shows "fst ` set fd \<subseteq> {k \<in> fst ` set d. k \<notin> set excluded_keys} \<union> {''ERROR''}"
proof -
  from filtered_details_Inr [OF assms] obtain acc where a1: "filter_details d [] = Inr acc"
    and a3: "add_error_entry d success acc = Inr fd"
    by blast
  have "fst ` set acc = {k \<in> fst ` set d. k \<notin> set excluded_keys}"
    using filter_details_keys [OF a1] by simp
  moreover have "fst ` set fd \<subseteq> insert ''ERROR'' (fst ` set acc)"
  proof (cases "truthy (get_error_name d) \<and> \<not> truthy success")
    case True
    with add_error_entry_Inr [OF a3] obtain s where
      "fd = dict_set acc ''ERROR'' (Rich (Text s ''red''))" by auto
    then have "fst ` set fd = insert ''ERROR'' (fst ` set acc)"
      by (simp only: dict_set_keys)
    then show ?thesis by simp
  next
    case False
    with add_error_entry_Inr [OF a3] have "fd = acc" by auto
    then show ?thesis by auto
  qed
  ultimately show ?thesis by auto
qed

text \<open>An entry of the details that is not excluded stays, with its value.\<close>

lemma filtered_details_entry:
  assumes "filtered_details d success = Inr fd" and "distinct (map fst d)"
      and "(k, v) \<in> set d" and "k \<notin> set excluded_keys" and "k \<noteq> ''ERROR''"
  shows "(k, Plain v) \<in> set fd"
proof -
  from filtered_details_Inr [OF assms(1)] obtain acc where a1: "filter_details d [] = Inr acc"
    and a3: "add_error_entry d success acc = Inr fd"
    by blast
  have "(k, Plain v) \<in> set acc"
    using filter_details_entry [OF a1 assms(2) assms(3) assms(4)] by simp
  then show ?thesis
    using add_error_entry_Inr [OF a3] assms(5) by (auto simp: dict_set_keeps split: if_splits)
qed

text \<open>A byte sequence under a path key: the details raise the \<^verbatim>\<open>TypeError\<close> of the call.\<close>

lemma filtered_details_bytes_path:
  assumes "k \<in> set path_keys" and "map_of d k = Some (PBytes b)"
  shows "filtered_details d success = Inl fsdecode_arity_error"
proof (cases "filter_details d []")
  case (Inl e)
  with filter_details_Inl [OF Inl] show ?thesis by (simp add: filtered_details_def)
next
  case (Inr acc1)
  show ?thesis
  proof (cases "decode_path_details d path_keys acc1")
    case (Inl e)
    with decode_path_details_Inl [OF Inl] Inr show ?thesis by (simp add: filtered_details_def)
  next
    case Inr2: (Inr acc2)
    from decode_path_details_Inr [OF Inr2] assms show ?thesis by auto
  qed
qed

text \<open>Taking away a path key whose value is not a byte sequence changes nothing.\<close>

lemma map_of_dict_del: "map_of (dict_del d k) k' = (if k' = k then None else map_of d k')"
  by (induction d) (auto simp: dict_del_def)

lemma filter_details_dict_del:
  "k \<in> set excluded_keys \<Longrightarrow> filter_details (dict_del d k) acc = filter_details d acc"
proof (induction d arbitrary: acc)
  case Nil
  then show ?case by (simp add: dict_del_def)
next
  case (Cons p rest)
  obtain k' v where p: "p = (k', v)" by (cases p)
  show ?case
  proof (cases "k' = k")
    case True
    then have "dict_del (p # rest) k = dict_del rest k" using p by (simp add: dict_del_def)
    moreover have "filter_details (p # rest) acc = filter_details rest acc"
      using True p Cons.prems by simp
    ultimately show ?thesis using Cons by simp
  next
    case False
    then have del: "dict_del (p # rest) k = (k', v) # dict_del rest k"
      using p by (simp add: dict_del_def)
    show ?thesis
    proof (cases "k' \<in> set excluded_keys")
      case True
      with del p Cons show ?thesis by simp
    next
      case ne: False
      show ?thesis
      proof (cases "\<exists>b. v = PBytes b")
        case True
        with del p ne show ?thesis by (auto simp: fsdecode_surrogateescape_def)
      next
        case nb: False
        then have "\<forall>b. v \<noteq> PBytes b" by simp
        from filter_details_kept [OF ne this] del p Cons show ?thesis by simp
      qed
    qed
  qed
qed

lemma decode_path_details_dict_del:
  assumes "map_of d k = Some v" and "\<forall>b. v \<noteq> PBytes b"
  shows "decode_path_details (dict_del d k) ks acc = decode_path_details d ks acc"
proof (induction ks arbitrary: acc)
  case Nil
  then show ?case by simp
next
  case (Cons k' ks)
  show ?case
  proof (cases "k' = k")
    case True
    have "decode_path_details d (k' # ks) acc = decode_path_details d ks acc"
      using True assms by (cases v) auto
    moreover have "decode_path_details (dict_del d k) (k' # ks) acc =
        decode_path_details (dict_del d k) ks acc"
      using True by (simp add: map_of_dict_del)
    ultimately show ?thesis using Cons by simp
  next
    case False
    then show ?thesis
      using Cons.IH
      by (auto simp: map_of_dict_del split: option.splits pyval.splits sum.splits)
  qed
qed

lemma filtered_details_dict_del:
  assumes "k \<in> set path_keys" and "map_of d k = Some v" and "\<forall>b. v \<noteq> PBytes b"
  shows "filtered_details (dict_del d k) success = filtered_details d success"
proof -
  have ex: "k \<in> set excluded_keys" and ne: "k \<noteq> ''error_name''"
    using assms(1) by (auto simp: path_keys_def excluded_keys_def)
  have "get_error_name (dict_del d k) = get_error_name d"
    using ne by (simp add: get_error_name_def map_of_dict_del)
  then have third: "add_error_entry (dict_del d k) success acc = add_error_entry d success acc"
    for acc
    by (simp add: add_error_entry_def)
  have first: "filter_details (dict_del d k) [] = filter_details d []"
    by (rule filter_details_dict_del [OF ex])
  have second: "decode_path_details (dict_del d k) path_keys acc =
      decode_path_details d path_keys acc" for acc
    by (rule decode_path_details_dict_del [OF assms(2) assms(3)])
  show ?thesis
    by (simp only: filtered_details_def first second third)
qed

text \<open>When the three steps raise nothing.\<close>

lemma is_bytes_iff: "is_bytes v \<longleftrightarrow> (\<exists>b. v = PBytes b)"
  by (cases v) simp_all

lemma is_str_iff: "is_str v \<longleftrightarrow> (\<exists>s. v = PStr s)"
  by (cases v) simp_all

lemma filter_details_total:
  "list_all (\<lambda>p. fst p \<in> set excluded_keys \<or> \<not> is_bytes (snd p)) d \<Longrightarrow>
   \<exists>fd. filter_details d acc = Inr fd"
proof (induction d arbitrary: acc)
  case Nil
  then show ?case by simp
next
  case (Cons p rest)
  obtain k v where p: "p = (k, v)" by (cases p)
  show ?case
  proof (cases "k \<in> set excluded_keys")
    case True
    with Cons p show ?thesis by simp
  next
    case False
    with Cons.prems p have "\<forall>b. v \<noteq> PBytes b" by (simp add: is_bytes_iff)
    from filter_details_kept [OF False this] Cons p show ?thesis by simp
  qed
qed

lemma filter_details_Inr_no_bytes:
  "filter_details d acc = Inr fd \<Longrightarrow>
   list_all (\<lambda>p. fst p \<in> set excluded_keys \<or> \<not> is_bytes (snd p)) d"
  by (induction rule: filter_details_Inr_induct) (simp_all add: is_bytes_iff)

lemma decode_path_details_total:
  "list_all (\<lambda>k. case map_of d k of None \<Rightarrow> True | Some v \<Rightarrow> \<not> is_bytes v) ks \<Longrightarrow>
   decode_path_details d ks acc = Inr acc"
proof (induction ks)
  case Nil
  then show ?case by simp
next
  case (Cons k ks)
  then show ?case
    by (cases "map_of d k") (auto split: pyval.splits)
qed

lemma decode_path_details_Inr_no_bytes:
  assumes "decode_path_details d ks acc = Inr fd"
  shows "list_all (\<lambda>k. case map_of d k of None \<Rightarrow> True | Some v \<Rightarrow> \<not> is_bytes v) ks"
  using decode_path_details_Inr [OF assms]
  by (auto simp: list_all_iff is_bytes_iff split: option.splits)

lemma add_error_entry_total:
  "(\<exists>fd. add_error_entry d success acc = Inr fd) \<longleftrightarrow>
   (truthy (get_error_name d) \<and> \<not> truthy success \<longrightarrow> is_str (get_error_name d))"
  by (cases "get_error_name d") (auto simp: add_error_entry_def split: if_splits)

lemma filtered_details_ok_iff:
  "(\<exists>fd. filtered_details d success = Inr fd) \<longleftrightarrow> details_ok d success"
proof
  assume "\<exists>fd. filtered_details d success = Inr fd"
  then obtain fd acc1 acc2 where a1: "filter_details d [] = Inr acc1"
    and a2: "decode_path_details d path_keys acc1 = Inr acc2"
    and a3: "add_error_entry d success acc2 = Inr fd"
    by (auto simp: filtered_details_def split: sum.splits)
  from a3 have "truthy (get_error_name d) \<and> \<not> truthy success \<longrightarrow> is_str (get_error_name d)"
    using add_error_entry_total [of d success acc2] by blast
  with filter_details_Inr_no_bytes [OF a1] decode_path_details_Inr_no_bytes [OF a2]
  show "details_ok d success" by (simp add: details_ok_def)
next
  assume ok: "details_ok d success"
  then obtain acc1 where a1: "filter_details d [] = Inr acc1"
    using filter_details_total [of d "[]"] by (auto simp: details_ok_def)
  have a2: "decode_path_details d path_keys acc1 = Inr acc1"
    using ok by (simp add: details_ok_def decode_path_details_total)
  obtain fd where "add_error_entry d success acc1 = Inr fd"
    using ok add_error_entry_total [of d success acc1] by (auto simp: details_ok_def)
  with a1 a2 show "\<exists>fd. filtered_details d success = Inr fd"
    by (simp add: filtered_details_def)
qed

lemma format_details_ok_iff:
  "(\<exists>ds. format_details env d success = Inr ds) \<longleftrightarrow> details_ok d success"
proof -
  have "(\<exists>ds. format_details env d success = Inr ds) \<longleftrightarrow>
      (\<exists>fd. filtered_details d success = Inr fd)"
    by (auto simp: format_details_def split: sum.splits)
  then show ?thesis by (simp only: filtered_details_ok_iff)
qed

text \<open>An event gives a row exactly when its timestamp gives a text and its details format.\<close>

lemma format_event_row_iff:
  "(\<exists>row. format_event env ev = (Inr row, lg)) \<longleftrightarrow>
   ((\<exists>ts_str. format_ts env (get_ts ev) = (Inr ts_str, lg))
    \<and> details_ok (get_details ev) (get_success ev))"
proof
  assume "\<exists>row. format_event env ev = (Inr row, lg)"
  then obtain row where "format_event env ev = (Inr row, lg)" by blast
  from format_event_row [OF this] obtain ts_str ds where
    "format_ts env (get_ts ev) = (Inr ts_str, lg)"
    "format_details env (get_details ev) (get_success ev) = Inr ds"
    by blast
  then show "(\<exists>ts_str. format_ts env (get_ts ev) = (Inr ts_str, lg))
      \<and> details_ok (get_details ev) (get_success ev)"
    using format_details_ok_iff by blast
next
  assume "(\<exists>ts_str. format_ts env (get_ts ev) = (Inr ts_str, lg))
      \<and> details_ok (get_details ev) (get_success ev)"
  then obtain ts_str ds where ts: "format_ts env (get_ts ev) = (Inr ts_str, lg)"
    and ds: "format_details env (get_details ev) (get_success ev) = Inr ds"
    using format_details_ok_iff by blast
  from format_event_ok [OF ts ds] show "\<exists>row. format_event env ev = (Inr row, lg)"
    by blast
qed

subsection \<open>Text that \<^verbatim>\<open>Text\<close> leaves as it is\<close>

lemma strip_id_iff:
  "strip_control_codes s = s \<longleftrightarrow> (\<forall>c\<in>set s. (of_char c :: nat) \<notin> {7, 8, 11, 12, 13})"
  by (simp add: strip_control_codes_def filter_id_conv)

lemma hex_char_clean: "d < 16 \<Longrightarrow> (of_char (hex_char d) :: nat) \<notin> {7, 8, 11, 12, 13}"
  by (auto simp: hex_char_def)

lemma of_char_less_256: "(of_char c :: nat) < 256"
proof -
  have "(of_char c :: nat) = of_char c mod 256" by (simp only: of_char_mod_256)
  then show ?thesis by (metis mod_less_divisor zero_less_numeral)
qed

lemma hex_escape_clean: "\<forall>x\<in>set (hex_escape c). (of_char x :: nat) \<notin> {7, 8, 11, 12, 13}"
proof -
  have "(of_char c :: nat) < 16 * 16" using of_char_less_256 [of c] by simp
  then have "(of_char c :: nat) div 16 < 16" by (rule less_mult_imp_div_less)
  moreover have "(of_char c :: nat) mod 16 < 16" by simp
  ultimately show ?thesis
    using hex_char_clean by (simp add: hex_escape_def)
qed

lemma repr_char_clean:
  assumes "(of_char q :: nat) \<notin> {7, 8, 11, 12, 13}"
  shows "\<forall>x\<in>set (repr_char str_printable q c). (of_char x :: nat) \<notin> {7, 8, 11, 12, 13}"
proof (cases "c = q \<or> c = CHR 0x5C \<or> c = CHR 0x09 \<or> c = CHR 0x0A \<or> c = CHR 0x0D")
  case True
  with assms show ?thesis by (auto simp: repr_char_def)
next
  case False
  show ?thesis
  proof (cases "str_printable c")
    case True
    then have "(of_char c :: nat) \<notin> {7, 8, 11, 12, 13}"
      by (auto simp: str_printable_def Let_def)
    with True False show ?thesis by (simp add: repr_char_def)
  next
    case np: False
    with False have "repr_char str_printable q c = hex_escape c" by (simp add: repr_char_def)
    then show ?thesis using hex_escape_clean by simp
  qed
qed

lemma strip_str_repr: "strip_control_codes (str_repr s) = str_repr s"
proof -
  have q: "(of_char (repr_quote s) :: nat) \<notin> {7, 8, 11, 12, 13}"
    by (simp add: repr_quote_def)
  have "\<forall>c\<in>set (str_repr s). (of_char c :: nat) \<notin> {7, 8, 11, 12, 13}"
    using q repr_char_clean [OF q] by (auto simp: str_repr_def)
  then show ?thesis by (simp only: strip_id_iff)
qed

lemma strip_error_key: "strip_control_codes (''ERROR='' @ str_repr s) = ''ERROR='' @ str_repr s"
proof -
  have "strip_control_codes ''ERROR='' = ''ERROR=''"
    by (simp add: strip_control_codes_def)
  then show ?thesis by (simp only: strip_append strip_str_repr)
qed

lemma strip_error_name_key:
  "strip_control_codes (''error_name='' @ str_repr s) = ''error_name='' @ str_repr s"
proof -
  have "strip_control_codes ''error_name='' = ''error_name=''"
    by (simp add: strip_control_codes_def)
  then show ?thesis by (simp only: strip_append strip_str_repr)
qed

subsection \<open>The cells of a row\<close>

lemma format_event_cells:
  assumes "format_event env ev = (Inr row, lg)"
  shows "\<exists>fd. filtered_details (get_details ev) (get_success ev) = Inr fd
           \<and> row ! 2 = (if truthy (get_success ev) then Text ''OK'' ''green''
                        else Text ''FAIL'' ''red'')
           \<and> row ! 3 = Text (short_path env (utf8_encode (details_str env fd)) 100) []"
proof -
  from format_event_row [OF assms] obtain ts_str ds where
    ds: "format_details env (get_details ev) (get_success ev) = Inr ds" and
    row: "row = [Text ts_str [],
       Text ((if \<not> truthy (get_success ev) then emoji_get env ''ERROR''
              else emoji_get env (str_upper env (py_str env (get_type ev)))) @ '' '' @
             str_upper env (py_str env (get_type ev))) [],
       (if truthy (get_success ev) then Text ''OK'' ''green'' else Text ''FAIL'' ''red''),
       Text (short_path env (utf8_encode ds) 100) []]"
    by blast
  from ds obtain fd where fd: "filtered_details (get_details ev) (get_success ev) = Inr fd"
    and "ds = details_str env fd"
    by (auto simp: format_details_def split: sum.splits)
  with row show ?thesis by simp
qed

lemma format_event_type_irrelevant:
  assumes "format_event env ev = (Inr row, lg)"
  shows "\<exists>row'. format_event env (ev\<lparr>ev_type := t\<rparr>) = (Inr row', lg)
           \<and> row' ! 0 = row ! 0 \<and> row' ! 2 = row ! 2 \<and> row' ! 3 = row ! 3"
proof -
  from format_event_row [OF assms] obtain ts_str ds where
    ts: "format_ts env (get_ts ev) = (Inr ts_str, lg)" and
    ds: "format_details env (get_details ev) (get_success ev) = Inr ds" and
    row: "row = [Text ts_str [],
       Text ((if \<not> truthy (get_success ev) then emoji_get env ''ERROR''
              else emoji_get env (str_upper env (py_str env (get_type ev)))) @ '' '' @
             str_upper env (py_str env (get_type ev))) [],
       (if truthy (get_success ev) then Text ''OK'' ''green'' else Text ''FAIL'' ''red''),
       Text (short_path env (utf8_encode ds) 100) []]"
    by blast
  let ?ev = "ev\<lparr>ev_type := t\<rparr>"
  have same: "get_ts ?ev = get_ts ev" "get_success ?ev = get_success ev"
    "get_details ?ev = get_details ev"
    by (simp_all add: get_ts_def get_success_def get_details_def)
  have ts': "format_ts env (get_ts ?ev) = (Inr ts_str, lg)"
    using ts same by simp
  have ds': "format_details env (get_details ?ev) (get_success ?ev) = Inr ds"
    using ds same by simp
  from format_event_ok [OF ts' ds'] row same show ?thesis by simp
qed

lemma error_entry_present:
  assumes "filtered_details d success = Inr fd" and "get_error_name d = PStr s"
      and "s \<noteq> []" and "\<not> truthy success"
  shows "(''ERROR'', Rich (Text s ''red'')) \<in> set fd
       \<and> sublist (''ERROR='' @ str_repr (strip_control_codes s)) (details_str env fd)"
proof -
  from filtered_details_Inr [OF assms(1)] obtain acc where
    a3: "add_error_entry d success acc = Inr fd"
    by blast
  from add_error_entry_Inr [OF a3] assms(2) assms(3) assms(4)
  have "fd = dict_set acc ''ERROR'' (Rich (Text s ''red''))" by simp
  then have mem: "(''ERROR'', Rich (Text s ''red'')) \<in> set fd"
    by (simp add: dict_set_has)
  then have "details_part env (''ERROR'', Rich (Text s ''red'')) \<in> details_part env ` set fd"
    by (rule imageI)
  then have "details_part env (''ERROR'', Rich (Text s ''red'')) \<in> set (map (details_part env) fd)"
    by (simp only: set_map)
  then have "sublist (details_part env (''ERROR'', Rich (Text s ''red''))) (details_str env fd)"
    unfolding details_str_def by (rule sublist_join)
  with mem show ?thesis by (simp add: Text_def)
qed

lemma plain_entry_present:
  assumes "(k, Plain v) \<in> set fd"
  shows "sublist (k @ ''='' @ py_repr env v) (details_str env fd)"
proof -
  from assms have "details_part env (k, Plain v) \<in> details_part env ` set fd"
    by (rule imageI)
  then have "details_part env (k, Plain v) \<in> set (map (details_part env) fd)"
    by (simp only: set_map)
  then have "sublist (details_part env (k, Plain v)) (details_str env fd)"
    unfolding details_str_def by (rule sublist_join)
  then show ?thesis by simp
qed

lemma details_cell_contains:
  assumes "sublist x ds" and "strip_control_codes x = x"
      and "short_path env (utf8_encode ds) 100 = ds"
  shows "sublist x (plain (Text (short_path env (utf8_encode ds) 100) []))"
  using sublist_strip [OF assms(1) assms(2)] assms(3) by (simp add: Text_def)

lemma ENOENT_texts:
  "strip_control_codes ''ENOENT'' = ''ENOENT''"
  "''ERROR='' @ str_repr ''ENOENT'' = ''ERROR='ENOENT'' @ [CHR 0x27]"
  "Text ''FAIL'' ''red'' = \<lparr>plain = ''FAIL'', style = ''red''\<rparr>"
  "Text ''OK'' ''green'' = \<lparr>plain = ''OK'', style = ''green''\<rparr>"
  by code_simp+

subsection \<open>A path given as a byte sequence\<close>

text \<open>
  C1, at the failing input. The claim is what the code means to do; the code does not do
  it. For every event whose details hold a byte sequence under \<^verbatim>\<open>target_path\<close> (valid
  UTF-8 or not), formatting the details raises the \<^verbatim>\<open>TypeError\<close> of the call
  \<^verbatim>\<open>os.fsdecode(v, "surrogateescape")\<close>, so formatting the event raises: there is no
  details text, and no row.
\<close>

theorem bytes_target_path_raises:
  assumes "map_of (get_details ev) ''target_path'' = Some (PBytes b)"
  shows "format_details env (get_details ev) (get_success ev) = Inl fsdecode_arity_error
       \<and> (\<exists>e lg. format_event env ev = (Inl e, lg))"
proof -
  have "''target_path'' \<in> set path_keys" by (simp add: path_keys_def)
  from filtered_details_bytes_path [OF this assms]
  have ds: "format_details env (get_details ev) (get_success ev) = Inl fsdecode_arity_error"
    by (simp add: format_details_def)
  obtain res lg where ts: "format_ts env (get_ts ev) = (res, lg)"
    by (cases "format_ts env (get_ts ev)")
  have "\<exists>e lg. format_event env ev = (Inl e, lg)"
  proof (cases res)
    case (Inl e)
    with ts format_event_ts_raises show ?thesis by blast
  next
    case (Inr ts_str)
    with ts ds format_event_details_raises show ?thesis by blast
  qed
  with ds show ?thesis by simp
qed

theorem bytes_target_path_raises_witness:
  "map_of (get_details bytes_path_event) ''target_path'' = Some (PBytes [CHR ''/'', CHR 0xFF])
   \<and> format_details sample_env (get_details bytes_path_event) (get_success bytes_path_event) =
       Inl (Exn TypeError
         ''_fscodec.<locals>.fsdecode() takes 1 positional argument but 2 were given'')
   \<and> format_event sample_env bytes_path_event =
       (Inl (Exn TypeError
         ''_fscodec.<locals>.fsdecode() takes 1 positional argument but 2 were given''), [])
   \<and> rows (table (mounted sample_env (sample_file [bytes_path_event])
          (compose sample_env (sample_file [bytes_path_event])))) =
     [[\<lparr>plain = ''Error loading details: _fscodec.<locals>.fsdecode() takes 1 positional argument but 2 were given'',
        style = ''bold red''\<rparr>]]"
proof -
  let ?f = "sample_file [bytes_path_event]"
  let ?e = "Exn TypeError
       ''_fscodec.<locals>.fsdecode() takes 1 positional argument but 2 were given''"
  have path: "map_of (get_details bytes_path_event) ''target_path'' =
      Some (PBytes [CHR ''/'', CHR 0xFF])"
    by (simp add: get_details_def bytes_path_event_def)
  have ok: "list_all2 (\<lambda>ev r. fst (format_event sample_env ev) = Inr r) [] []"
    by simp
  have bad: "fst (format_event sample_env bytes_path_event) = Inl ?e"
    by (simp add: bytes_path_event_raises)
  have hist: "event_history ?f = [] @ bytes_path_event # []"
    by (simp add: sample_file_def)
  from history_with_failure [OF ok bad hist, of "compose sample_env ?f"]
  obtain st' where body: "on_mount_body sample_env ?f (compose sample_env ?f) = (Some ?e, st')"
    by blast
  from on_mount_after_raise(1) [OF body]
  have table: "rows (table (mounted sample_env ?f (compose sample_env ?f))) =
      [[\<lparr>plain = ''Error loading details: _fscodec.<locals>.fsdecode() takes 1 positional argument but 2 were given'',
         style = ''bold red''\<rparr>]]"
    by (simp add: error_row_def Text_def strip_control_codes_def)
  from bytes_target_path_raises [OF path, of sample_env] path table bytes_path_event_raises
  show ?thesis
    by (simp add: fsdecode_arity_error_def)
qed

subsection \<open>The error name of a failed event\<close>

text \<open>
  C8. An event gives a row exactly when its timestamp gives a text and its details format
  (\<open>details_ok\<close>); the claim is about the cells of that row. For every event that gives a
  row, the details cell is the shortened text of the filtered details \<open>fd\<close>, and \<open>fd\<close> holds
  an \<^verbatim>\<open>ERROR\<close> entry made of the error name exactly when the details give an error name
  that is present and not empty and the event is a failure. If moreover the event is a
  failure with the error name \<^verbatim>\<open>ENOENT\<close>, then
  \<^item> the outcome cell is the red text \<^verbatim>\<open>FAIL\<close>;
  \<^item> the details text handed to \<^verbatim>\<open>short_path\<close> contains \<^verbatim>\<open>ERROR='ENOENT'\<close>, with the quotes;
  \<^item> where \<^verbatim>\<open>short_path\<close> returns that text as it is (as the spec says it does for text within
    the width), the details cell contains \<^verbatim>\<open>ERROR='ENOENT'\<close> too;
  \<^item> whatever type the event declares, the outcome cell and the details cell are the same.
\<close>

theorem failed_event_shows_error:
  "((\<exists>r. format_event env ev = (Inr r, lg)) \<longleftrightarrow>
      ((\<exists>ts_str. format_ts env (get_ts ev) = (Inr ts_str, lg))
       \<and> details_ok (get_details ev) (get_success ev)))
   \<and> (format_event env ev = (Inr row, lg) \<longrightarrow>
        (\<exists>fd. filtered_details (get_details ev) (get_success ev) = Inr fd
           \<and> row ! 3 = Text (short_path env (utf8_encode (details_str env fd)) 100) []
           \<and> ((\<exists>t. (''ERROR'', Rich t) \<in> set fd) \<longleftrightarrow>
                (truthy (get_error_name (get_details ev)) \<and> \<not> truthy (get_success ev)))
           \<and> (\<not> truthy (get_success ev)
                \<and> map_of (get_details ev) ''error_name'' = Some (PStr ''ENOENT'') \<longrightarrow>
                  row ! 2 = \<lparr>plain = ''FAIL'', style = ''red''\<rparr>
                \<and> sublist (''ERROR='ENOENT'' @ [CHR 0x27]) (details_str env fd)
                \<and> (short_path env (utf8_encode (details_str env fd)) 100 = details_str env fd \<longrightarrow>
                     sublist (''ERROR='ENOENT'' @ [CHR 0x27]) (plain (row ! 3)))
                \<and> (\<forall>t. \<exists>row'. format_event env (ev\<lparr>ev_type := t\<rparr>) = (Inr row', lg)
                        \<and> row' ! 2 = row ! 2 \<and> row' ! 3 = row ! 3))))"
proof (intro conjI impI)
  show "(\<exists>r. format_event env ev = (Inr r, lg)) \<longleftrightarrow>
      ((\<exists>ts_str. format_ts env (get_ts ev) = (Inr ts_str, lg))
       \<and> details_ok (get_details ev) (get_success ev))"
    by (rule format_event_row_iff)
next
  assume given: "format_event env ev = (Inr row, lg)"
  from format_event_cells [OF given] obtain fd where
    fd: "filtered_details (get_details ev) (get_success ev) = Inr fd" and
    outcome: "row ! 2 = (if truthy (get_success ev) then Text ''OK'' ''green''
                         else Text ''FAIL'' ''red'')" and
    cell: "row ! 3 = Text (short_path env (utf8_encode (details_str env fd)) 100) []"
    by blast
  have entry: "(\<exists>t. (''ERROR'', Rich t) \<in> set fd) \<longleftrightarrow>
      (truthy (get_error_name (get_details ev)) \<and> \<not> truthy (get_success ev))"
    by (rule filtered_details_error_entry [OF fd])
  have failed: "row ! 2 = \<lparr>plain = ''FAIL'', style = ''red''\<rparr>
      \<and> sublist (''ERROR='ENOENT'' @ [CHR 0x27]) (details_str env fd)
      \<and> (short_path env (utf8_encode (details_str env fd)) 100 = details_str env fd \<longrightarrow>
           sublist (''ERROR='ENOENT'' @ [CHR 0x27]) (plain (row ! 3)))
      \<and> (\<forall>t. \<exists>row'. format_event env (ev\<lparr>ev_type := t\<rparr>) = (Inr row', lg)
              \<and> row' ! 2 = row ! 2 \<and> row' ! 3 = row ! 3)"
    if fail: "\<not> truthy (get_success ev)"
      and name: "map_of (get_details ev) ''error_name'' = Some (PStr ''ENOENT'')"
  proof -
    have en: "get_error_name (get_details ev) = PStr ''ENOENT''"
      using name by (simp add: get_error_name_def)
    from error_entry_present [OF fd en _ fail, of env]
    have "sublist (''ERROR='' @ str_repr (strip_control_codes ''ENOENT'')) (details_str env fd)"
      by simp
    then have inside: "sublist (''ERROR='ENOENT'' @ [CHR 0x27]) (details_str env fd)"
      by (simp only: ENOENT_texts)
    have clean: "strip_control_codes (''ERROR='ENOENT'' @ [CHR 0x27]) = ''ERROR='ENOENT'' @ [CHR 0x27]"
      using strip_error_key [of "''ENOENT''"] by (simp only: ENOENT_texts)
    have shown: "sublist (''ERROR='ENOENT'' @ [CHR 0x27]) (plain (row ! 3))"
      if "short_path env (utf8_encode (details_str env fd)) 100 = details_str env fd"
      using details_cell_contains [OF inside clean that] cell by simp
    have "row ! 2 = \<lparr>plain = ''FAIL'', style = ''red''\<rparr>"
      using outcome fail by (simp add: ENOENT_texts)
    moreover have "\<forall>t. \<exists>row'. format_event env (ev\<lparr>ev_type := t\<rparr>) = (Inr row', lg)
        \<and> row' ! 2 = row ! 2 \<and> row' ! 3 = row ! 3"
      using format_event_type_irrelevant [OF given] by blast
    ultimately show ?thesis using inside shown by blast
  qed
  show "\<exists>fd. filtered_details (get_details ev) (get_success ev) = Inr fd
      \<and> row ! 3 = Text (short_path env (utf8_encode (details_str env fd)) 100) []
      \<and> ((\<exists>t. (''ERROR'', Rich t) \<in> set fd) \<longleftrightarrow>
           (truthy (get_error_name (get_details ev)) \<and> \<not> truthy (get_success ev)))
      \<and> (\<not> truthy (get_success ev)
           \<and> map_of (get_details ev) ''error_name'' = Some (PStr ''ENOENT'') \<longrightarrow>
             row ! 2 = \<lparr>plain = ''FAIL'', style = ''red''\<rparr>
           \<and> sublist (''ERROR='ENOENT'' @ [CHR 0x27]) (details_str env fd)
           \<and> (short_path env (utf8_encode (details_str env fd)) 100 = details_str env fd \<longrightarrow>
                sublist (''ERROR='ENOENT'' @ [CHR 0x27]) (plain (row ! 3)))
           \<and> (\<forall>t. \<exists>row'. format_event env (ev\<lparr>ev_type := t\<rparr>) = (Inr row', lg)
                   \<and> row' ! 2 = row ! 2 \<and> row' ! 3 = row ! 3))"
    using fd cell entry failed by blast
qed

lemma enoent_event_details_ok:
  "details_ok (get_details enoent_event) (get_success enoent_event)"
proof -
  have "details_ok [(''error_name'', PStr ''ENOENT''), (''target_path'', PStr ''/x'')] (PBool False)"
    by code_simp
  then show ?thesis by (simp add: get_details_def get_success_def enoent_event_def)
qed

theorem failed_event_shows_error_witness:
  "details_ok (get_details enoent_event) (get_success enoent_event)
   \<and> format_ts sample_env (get_ts enoent_event) = (Inr ''0.000'', [])
   \<and> format_event sample_env enoent_event =
     (Inr [\<lparr>plain = ''0.000'', style = []\<rparr>, \<lparr>plain = ''! OPEN'', style = []\<rparr>,
           \<lparr>plain = ''FAIL'', style = ''red''\<rparr>,
           \<lparr>plain = ''error_name='ENOENT', ERROR='ENOENT'' @ [CHR 0x27], style = []\<rparr>], [])
   \<and> (\<exists>fd. filtered_details (get_details enoent_event) (get_success enoent_event) = Inr fd
        \<and> (\<exists>t. (''ERROR'', Rich t) \<in> set fd)
        \<and> sublist (''ERROR='ENOENT'' @ [CHR 0x27]) (details_str sample_env fd))"
proof -
  have fail: "\<not> truthy (get_success enoent_event)"
    by (simp add: get_success_def enoent_event_def)
  have name: "map_of (get_details enoent_event) ''error_name'' = Some (PStr ''ENOENT'')"
    by (simp add: get_details_def enoent_event_def)
  have en: "truthy (get_error_name (get_details enoent_event))"
    using name by (simp add: get_error_name_def)
  from failed_event_shows_error [of sample_env enoent_event "[]"]
    fail name en enoent_event_row enoent_event_ts enoent_event_details_ok
  show ?thesis by blast
qed

subsection \<open>The error name, listed twice\<close>

text \<open>
  C9. \<^verbatim>\<open>error_name\<close> is not among the excluded keys. Take an event whose details (a
  dictionary: the keys are distinct) hold a truthy value \<open>v\<close> under \<^verbatim>\<open>error_name\<close>. It
  gives a row exactly when its timestamp gives a text and its details format. Whenever it
  gives a row, the filtered details keep the entry, whatever the success flag: the
  details text handed to \<^verbatim>\<open>short_path\<close> contains \<^verbatim>\<open>error_name=\<close> followed by \<^verbatim>\<open>repr(v)\<close>,
  which for text is the text in quotes. If the event is a failure, \<open>v\<close> is text and the
  details text contains the name a second time, as \<^verbatim>\<open>ERROR=\<close> followed by the quoted name
  (without the control codes \<^verbatim>\<open>Text\<close> removes); if it is a success there is no such entry.
  Where \<^verbatim>\<open>short_path\<close> returns the details text as it is, the details cell contains both.
\<close>

theorem error_name_listed_twice:
  assumes "distinct (map fst (get_details ev))"
      and "map_of (get_details ev) ''error_name'' = Some v"
      and "truthy v"
  shows "((\<exists>r. format_event env ev = (Inr r, lg)) \<longleftrightarrow>
            ((\<exists>ts_str. format_ts env (get_ts ev) = (Inr ts_str, lg))
             \<and> details_ok (get_details ev) (get_success ev)))
       \<and> (format_event env ev = (Inr row, lg) \<longrightarrow>
           (\<exists>fd. filtered_details (get_details ev) (get_success ev) = Inr fd
              \<and> row ! 3 = Text (short_path env (utf8_encode (details_str env fd)) 100) []
              \<and> (''error_name'', Plain v) \<in> set fd
              \<and> sublist (''error_name='' @ py_repr env v) (details_str env fd)
              \<and> (truthy (get_success ev) \<longrightarrow> \<not> (\<exists>t. (''ERROR'', Rich t) \<in> set fd))
              \<and> (\<not> truthy (get_success ev) \<longrightarrow>
                   (\<exists>s. v = PStr s
                      \<and> (''ERROR'', Rich (Text s ''red'')) \<in> set fd
                      \<and> sublist (''error_name='' @ str_repr s) (details_str env fd)
                      \<and> sublist (''ERROR='' @ str_repr (strip_control_codes s))
                           (details_str env fd)
                      \<and> (short_path env (utf8_encode (details_str env fd)) 100 =
                             details_str env fd \<longrightarrow>
                           sublist (''error_name='' @ str_repr s) (plain (row ! 3))
                         \<and> sublist (''ERROR='' @ str_repr (strip_control_codes s))
                              (plain (row ! 3)))))))"
proof (intro conjI impI)
  show "(\<exists>r. format_event env ev = (Inr r, lg)) \<longleftrightarrow>
      ((\<exists>ts_str. format_ts env (get_ts ev) = (Inr ts_str, lg))
       \<and> details_ok (get_details ev) (get_success ev))"
    by (rule format_event_row_iff)
next
  assume given: "format_event env ev = (Inr row, lg)"
  let ?d = "get_details ev" and ?success = "get_success ev"
  from format_event_cells [OF given] obtain fd where
    fd: "filtered_details ?d ?success = Inr fd" and
    cell: "row ! 3 = Text (short_path env (utf8_encode (details_str env fd)) 100) []"
    by blast
  have mem: "(''error_name'', v) \<in> set ?d"
    using assms(2) by (rule map_of_SomeD)
  have keys: "''error_name'' \<notin> set excluded_keys" "''error_name'' \<noteq> ''ERROR''"
    by (simp_all add: excluded_keys_def)
  have kept: "(''error_name'', Plain v) \<in> set fd"
    by (rule filtered_details_entry [OF fd assms(1) mem keys])
  have listed: "sublist (''error_name='' @ py_repr env v) (details_str env fd)"
    using plain_entry_present [OF kept, of env] by simp
  have en: "get_error_name ?d = v"
    using assms(2) by (simp add: get_error_name_def)
  have success: "\<not> (\<exists>t. (''ERROR'', Rich t) \<in> set fd)" if "truthy ?success"
    using filtered_details_error_entry [OF fd] that by simp
  have failure: "\<exists>s. v = PStr s
      \<and> (''ERROR'', Rich (Text s ''red'')) \<in> set fd
      \<and> sublist (''error_name='' @ str_repr s) (details_str env fd)
      \<and> sublist (''ERROR='' @ str_repr (strip_control_codes s)) (details_str env fd)
      \<and> (short_path env (utf8_encode (details_str env fd)) 100 = details_str env fd \<longrightarrow>
           sublist (''error_name='' @ str_repr s) (plain (row ! 3))
         \<and> sublist (''ERROR='' @ str_repr (strip_control_codes s)) (plain (row ! 3)))"
    if fail: "\<not> truthy ?success"
  proof -
    from filtered_details_Inr [OF fd] obtain acc where
      a3: "add_error_entry ?d ?success acc = Inr fd"
      by blast
    from add_error_entry_Inr [OF a3] en assms(3) fail obtain s where s: "v = PStr s"
      by auto
    then have ne: "s \<noteq> []" using assms(3) by simp
    have ens: "get_error_name ?d = PStr s" using en s by simp
    from error_entry_present [OF fd ens ne fail, of env]
    have twice: "(''ERROR'', Rich (Text s ''red'')) \<in> set fd"
      "sublist (''ERROR='' @ str_repr (strip_control_codes s)) (details_str env fd)"
      by simp_all
    have once: "sublist (''error_name='' @ str_repr s) (details_str env fd)"
      using listed s by simp
    have shown: "sublist (''error_name='' @ str_repr s) (plain (row ! 3))
        \<and> sublist (''ERROR='' @ str_repr (strip_control_codes s)) (plain (row ! 3))"
      if same: "short_path env (utf8_encode (details_str env fd)) 100 = details_str env fd"
      using details_cell_contains [OF once strip_error_name_key same]
        details_cell_contains [OF twice(2) strip_error_key same] cell
      by simp
    show ?thesis
      using s twice once shown by blast
  qed
  show "\<exists>fd. filtered_details (get_details ev) (get_success ev) = Inr fd
      \<and> row ! 3 = Text (short_path env (utf8_encode (details_str env fd)) 100) []
      \<and> (''error_name'', Plain v) \<in> set fd
      \<and> sublist (''error_name='' @ py_repr env v) (details_str env fd)
      \<and> (truthy (get_success ev) \<longrightarrow> \<not> (\<exists>t. (''ERROR'', Rich t) \<in> set fd))
      \<and> (\<not> truthy (get_success ev) \<longrightarrow>
           (\<exists>s. v = PStr s
              \<and> (''ERROR'', Rich (Text s ''red'')) \<in> set fd
              \<and> sublist (''error_name='' @ str_repr s) (details_str env fd)
              \<and> sublist (''ERROR='' @ str_repr (strip_control_codes s))
                   (details_str env fd)
              \<and> (short_path env (utf8_encode (details_str env fd)) 100 =
                     details_str env fd \<longrightarrow>
                   sublist (''error_name='' @ str_repr s) (plain (row ! 3))
                 \<and> sublist (''ERROR='' @ str_repr (strip_control_codes s))
                      (plain (row ! 3)))))"
    using fd cell kept listed success failure by blast
qed

theorem error_name_listed_twice_witness:
  "distinct (map fst (get_details enoent_event))
   \<and> map_of (get_details enoent_event) ''error_name'' = Some (PStr ''ENOENT'')
   \<and> \<not> truthy (get_success enoent_event)
   \<and> (\<exists>fd. filtered_details (get_details enoent_event) (get_success enoent_event) = Inr fd
        \<and> (''error_name'', Plain (PStr ''ENOENT'')) \<in> set fd
        \<and> (''ERROR'', Rich (Text ''ENOENT'' ''red'')) \<in> set fd
        \<and> sublist (''error_name='' @ str_repr ''ENOENT'') (details_str sample_env fd)
        \<and> sublist (''ERROR='' @ str_repr (strip_control_codes ''ENOENT''))
             (details_str sample_env fd))"
proof -
  have dict: "distinct (map fst (get_details enoent_event))"
    by (simp add: get_details_def enoent_event_def)
  have name: "map_of (get_details enoent_event) ''error_name'' = Some (PStr ''ENOENT'')"
    by (simp add: get_details_def enoent_event_def)
  have fail: "\<not> truthy (get_success enoent_event)"
    by (simp add: get_success_def enoent_event_def)
  have "truthy (PStr ''ENOENT'')"
    by simp
  from error_name_listed_twice [OF dict name this, of sample_env "[]"]
    dict name fail enoent_event_row
  show ?thesis by blast
qed

subsection \<open>A path given as text\<close>

text \<open>
  C10. For every event whose details hold, under one of the four path keys
  \<^verbatim>\<open>target_path\<close>, \<^verbatim>\<open>source_path\<close>, \<^verbatim>\<open>renamed_to\<close>, \<^verbatim>\<open>renamed_from\<close>, a value that is not
  a byte sequence, the pair is left out altogether: the first loop excludes the key, the
  second adds it only for a byte sequence. So formatting the event gives what formatting
  it without the pair gives (the same row or the same exception, and the same log), and
  whenever the details are filtered the key is not among the filtered entries.
\<close>

theorem text_path_omitted:
  assumes "k \<in> set path_keys"
      and "map_of (get_details ev) k = Some v"
      and "\<forall>b. v \<noteq> PBytes b"
  shows "format_event env (ev\<lparr>ev_details := Some (dict_del (get_details ev) k)\<rparr>) =
           format_event env ev
       \<and> format_details env (dict_del (get_details ev) k) (get_success ev) =
           format_details env (get_details ev) (get_success ev)
       \<and> (\<forall>fd. filtered_details (get_details ev) (get_success ev) = Inr fd \<longrightarrow>
             k \<notin> fst ` set fd)"
proof -
  let ?ev = "ev\<lparr>ev_details := Some (dict_del (get_details ev) k)\<rparr>"
  have same: "get_ts ?ev = get_ts ev" "get_success ?ev = get_success ev"
    "get_type ?ev = get_type ev" "get_details ?ev = dict_del (get_details ev) k"
    by (simp_all add: get_ts_def get_success_def get_type_def get_details_def)
  have details: "format_details env (dict_del (get_details ev) k) (get_success ev) =
      format_details env (get_details ev) (get_success ev)"
    by (simp add: format_details_def filtered_details_dict_del [OF assms])
  have details': "format_details env (get_details ?ev) (get_success ?ev) =
      format_details env (get_details ev) (get_success ev)"
    using details same by simp
  obtain res lg where ts: "format_ts env (get_ts ev) = (res, lg)"
    by (cases "format_ts env (get_ts ev)")
  have event: "format_event env ?ev = format_event env ev"
  proof (cases res)
    case (Inl e)
    with ts have "format_ts env (get_ts ?ev) = (Inl e, lg)" "format_ts env (get_ts ev) = (Inl e, lg)"
      using same by simp_all
    then show ?thesis
      by (simp only: format_event_ts_raises)
  next
    case (Inr ts_str)
    with ts have t: "format_ts env (get_ts ev) = (Inr ts_str, lg)"
      and t': "format_ts env (get_ts ?ev) = (Inr ts_str, lg)"
      using same by simp_all
    show ?thesis
    proof (cases "format_details env (get_details ev) (get_success ev)")
      case (Inl e)
      then have "format_details env (get_details ?ev) (get_success ?ev) = Inl e"
        using details' by simp
      from format_event_details_raises [OF t' this] format_event_details_raises [OF t Inl]
      show ?thesis by simp
    next
      case inr: (Inr ds)
      then have "format_details env (get_details ?ev) (get_success ?ev) = Inr ds"
        using details' by simp
      from format_event_ok [OF t' this] format_event_ok [OF t inr] same
      show ?thesis by simp
    qed
  qed
  have absent: "k \<notin> fst ` set fd"
    if "filtered_details (get_details ev) (get_success ev) = Inr fd" for fd
  proof -
    have "k \<in> set excluded_keys" "k \<noteq> ''ERROR''"
      using assms(1) by (auto simp: path_keys_def excluded_keys_def)
    with filtered_details_keys [OF that] show ?thesis by auto
  qed
  show ?thesis
    using event details absent by blast
qed

theorem text_path_omitted_witness:
  "''target_path'' \<in> set path_keys
   \<and> map_of (get_details enoent_event) ''target_path'' = Some (PStr ''/x'')
   \<and> format_event sample_env
        (enoent_event\<lparr>ev_details := Some (dict_del (get_details enoent_event) ''target_path'')\<rparr>) =
      (Inr [\<lparr>plain = ''0.000'', style = []\<rparr>, \<lparr>plain = ''! OPEN'', style = []\<rparr>,
            \<lparr>plain = ''FAIL'', style = ''red''\<rparr>,
            \<lparr>plain = ''error_name='ENOENT', ERROR='ENOENT'' @ [CHR 0x27], style = []\<rparr>], [])
   \<and> dict_del (get_details enoent_event) ''target_path'' = [(''error_name'', PStr ''ENOENT'')]"
proof -
  have key: "''target_path'' \<in> set path_keys"
    by (simp add: path_keys_def)
  have given: "map_of (get_details enoent_event) ''target_path'' = Some (PStr ''/x'')"
    by (simp add: get_details_def enoent_event_def)
  have nobytes: "\<forall>b. PStr ''/x'' \<noteq> PBytes b"
    by simp
  have without: "dict_del (get_details enoent_event) ''target_path'' =
      [(''error_name'', PStr ''ENOENT'')]"
    by (simp add: dict_del_def get_details_def enoent_event_def)
  from text_path_omitted [OF key given nobytes, of sample_env] key given without enoent_event_row
  show ?thesis by simp
qed

end
